theory Spec2Isabelle
  imports Main "HOL-Library.AList" "HOL-Library.Char_ord" "HOL-Library.List_Lexorder"
    "HOL-Library.Multiset"
begin

section \<open>docx2python: the package and part layer of \<open>docx_reader.py\<close>\<close>

text \<open>
  A shallow embedding of \<open>src/docx2python/docx_reader.py\<close>: the class \<open>File\<close> (one
  part of the package), the class \<open>DocxReader\<close> (the package) and the helper
  \<open>_copy_but\<close>. Python attributes that are assigned become record fields, the
  hand-written caches (\<open>self.__path\<close>, \<open>self.__zipf\<close>, ...) become \<open>option\<close> fields
  with \<open>None\<close> for Python's \<open>None\<close>, every raise is a value of \<open>exn\<close>, and every
  method returns its result together with the objects it may have changed.
\<close>

subsection \<open>Library behaviour the code relies on\<close>

type_synonym bytes = string

text \<open>Exceptions, with the text they carry where the code or a claim reads it.\<close>

datatype exn =
  KeyError string
  | IndexError
  | ValueError string
  | AttributeError string
  | OSError string
  | XMLSyntaxError string

type_synonym 'a result = "exn + 'a"

fun is_KeyError :: "exn \<Rightarrow> bool" where
  "is_KeyError (KeyError _) = True"
| "is_KeyError _ = False"

text \<open>
  \<open>os.path\<close> on a POSIX system (\<open>posixpath\<close>). \<open>p.rfind('/') + 1\<close> splits the string
  after its last slash: the head is everything up to and including that slash, the
  tail what follows it.
\<close>

definition path_head :: "string \<Rightarrow> string" where
  "path_head p = rev (dropWhile (\<lambda>c. c \<noteq> CHR ''/'') (rev p))"

definition path_tail :: "string \<Rightarrow> string" where
  "path_tail p = rev (takeWhile (\<lambda>c. c \<noteq> CHR ''/'') (rev p))"

definition rstrip_sep :: "string \<Rightarrow> string" where
  "rstrip_sep s = rev (dropWhile (\<lambda>c. c = CHR ''/'') (rev s))"

text \<open>
  \<open>posixpath.dirname\<close>: the head, without its trailing slashes unless it consists of
  slashes only. \<open>posixpath.basename\<close>: the tail.
\<close>

definition dirname :: "string \<Rightarrow> string" where
  "dirname p =
     (let head = path_head p
      in if head \<noteq> [] \<and> head \<noteq> replicate (length head) CHR ''/''
         then rstrip_sep head else head)"

definition basename :: "string \<Rightarrow> string" where
  "basename p = path_tail p"

text \<open>\<open>os.path.split\<close>: the pair of both.\<close>

definition path_split :: "string \<Rightarrow> string \<times> string" where
  "path_split p = (dirname p, basename p)"

text \<open>\<open>sep.join(xs)\<close> of Python's \<open>str\<close>.\<close>

fun str_join :: "string \<Rightarrow> string list \<Rightarrow> string" where
  "str_join sep [] = []"
| "str_join sep [x] = x"
| "str_join sep (x # y # ys) = x @ sep @ str_join sep (y # ys)"

subsection \<open>The class \<open>File\<close>\<close>

text \<open>
  An element tree of \<open>lxml\<close>: tag, attributes, text and children. Parsing and
  serialising belong to \<open>lxml\<close> and are parameters of the model (see \<open>externals\<close>).
\<close>

datatype xml = Element (tag: string) (attrib: "(string \<times> string) list") (elem_text: string)
  (children: "xml list")

type_synonym content = "string list list list list"

text \<open>
  The attributes set by \<open>File.__init__\<close> and its four caches. The back-reference
  \<open>self.context\<close> is not a field: the methods that follow it take the reader as an
  argument and return it.
\<close>

record File =
  Id' :: string
  Type :: string
  Target :: string
  dir :: string
  path_cache :: "string option"
  rels_path_cache :: "string option"
  rels_cache :: "(string \<times> string) list option"
  root_element_cache :: "xml option"

definition CONTENT_FILE_TYPES :: "string set" where
  "CONTENT_FILE_TYPES = {''officeDocument'', ''header'', ''footer'', ''footnotes'', ''endnotes''}"

text \<open>
  \<open>File.__init__\<close>: \<open>attribute_dict[k]\<close> raises \<open>KeyError\<close> for a missing key. The
  attribute dict is an association list read with \<open>map_of\<close>.
\<close>

definition dict_get :: "(string \<times> string) list \<Rightarrow> string \<Rightarrow> string result" where
  "dict_get d k = (case map_of d k of None \<Rightarrow> Inl (KeyError k) | Some v \<Rightarrow> Inr v)"

definition File_init :: "(string \<times> string) list \<Rightarrow> File result" where
  "File_init attribute_dict =
     (case dict_get attribute_dict ''Id'' of Inl e \<Rightarrow> Inl e | Inr i \<Rightarrow>
      case dict_get attribute_dict ''Type'' of Inl e \<Rightarrow> Inl e | Inr ty \<Rightarrow>
      case dict_get attribute_dict ''Target'' of Inl e \<Rightarrow> Inl e | Inr ta \<Rightarrow>
      case dict_get attribute_dict ''dir'' of Inl e \<Rightarrow> Inl e | Inr d \<Rightarrow>
        Inr \<lparr>Id' = i, Type = basename ty, Target = ta, dir = d,
             path_cache = None, rels_path_cache = None, rels_cache = None,
             root_element_cache = None\<rparr>)"

text \<open>The property \<open>File.path\<close> (lines 92-121): the value and the object after the call.\<close>

definition File_path :: "File \<Rightarrow> string \<times> File" where
  "File_path self =
     (case path_cache self of
        Some p \<Rightarrow> (p, self)
      | None \<Rightarrow>
          (let dirs = map dirname [dir self, Target self];
               dirname' = str_join ''/'' (filter (\<lambda>x. x \<noteq> []) dirs);
               filename = basename (Target self);
               p = str_join ''/'' [dirname', filename]
           in (p, self\<lparr>path_cache := Some p\<rparr>)))"

text \<open>The property \<open>File._rels_path\<close> (lines 123-150).\<close>

definition File_rels_path :: "File \<Rightarrow> string \<times> File" where
  "File_rels_path self =
     (case rels_path_cache self of
        Some p \<Rightarrow> (p, self)
      | None \<Rightarrow>
          (let (p, self1) = File_path self;
               (dirname', filename) = path_split p;
               rp = str_join ''/'' [dirname', ''_rels'', filename @ ''.rels'']
           in (rp, self1\<lparr>rels_path_cache := Some rp\<rparr>)))"

subsection \<open>The archive handle (\<open>zipfile.ZipFile\<close>)\<close>

text \<open>
  An archive is the list of its entries in directory order, each a file name and its
  bytes (a \<open>ZipInfo\<close> is represented by its \<open>filename\<close>), and the handle is open or
  closed (\<open>self.fp\<close> is \<open>None\<close> once closed).
\<close>

record ZipFile =
  filelist :: "(string \<times> bytes) list"
  closed :: bool

text \<open>
  \<open>ZipFile.read(name)\<close>: a closed handle raises \<open>ValueError\<close> before the name is
  looked up; a name that is not in the archive raises \<open>KeyError\<close> (carried here with
  the name); of two entries with one name the later one is read.
\<close>

definition ZipFile_read :: "ZipFile \<Rightarrow> string \<Rightarrow> bytes result" where
  "ZipFile_read z name =
     (if closed z then Inl (ValueError ''Attempt to use ZIP archive that was already closed'')
      else case map_of (rev (filelist z)) name of
             None \<Rightarrow> Inl (KeyError name)
           | Some b \<Rightarrow> Inr b)"

text \<open>\<open>ZipFile.writestr(name, data)\<close>: appends an entry, or raises on a closed handle.\<close>

definition ZipFile_writestr :: "ZipFile \<Rightarrow> string \<Rightarrow> bytes \<Rightarrow> unit result \<times> ZipFile" where
  "ZipFile_writestr z name data =
     (if closed z
      then (Inl (ValueError ''Attempt to write to ZIP archive that was already closed''), z)
      else (Inr (), z\<lparr>filelist := filelist z @ [(name, data)]\<rparr>))"

text \<open>\<open>ZipFile.close()\<close> does nothing on a closed handle; \<open>infolist()\<close> works on both.\<close>

definition ZipFile_close :: "ZipFile \<Rightarrow> ZipFile" where
  "ZipFile_close z = z\<lparr>closed := True\<rparr>"

definition ZipFile_infolist :: "ZipFile \<Rightarrow> (string \<times> bytes) list" where
  "ZipFile_infolist z = filelist z"

text \<open>\<open>zipfile.ZipFile(filename, mode="w")\<close>: a new, empty, open archive.\<close>

definition ZipFile_create :: ZipFile where
  "ZipFile_create = \<lparr>filelist = [], closed = False\<rparr>"

subsection \<open>Collaborators outside \<open>docx_reader.py\<close>\<close>

type_synonym numFmts = "(string \<times> string list) list"

text \<open>
  What the module imports and calls: opening an archive for reading
  (\<open>zipfile.ZipFile(docx_filename)\<close>), \<open>etree.fromstring\<close> and \<open>etree.tostring\<close> of lxml,
  and the repository's \<open>collect_rels\<close>, \<open>collect_numFmts\<close>, \<open>merge_elems\<close> and
  \<open>get_text\<close>, none of which is under \<open>src/\<close>. They are parameters. \<open>merge_elems\<close>
  changes the tree in place and may raise: it gives the exception, if any, and the
  tree as it left it.
\<close>

record externals =
  zip_open :: "string \<Rightarrow> ZipFile result"
  fromstring :: "bytes \<Rightarrow> xml result"
  tostring :: "xml \<Rightarrow> bytes"
  collect_rels :: "ZipFile \<Rightarrow> (string \<times> (string \<times> string) list list) list result"
  collect_numFmts :: "xml \<Rightarrow> numFmts result"
  merge_elems :: "File \<Rightarrow> xml \<Rightarrow> exn option \<times> xml"
  get_text :: "File \<Rightarrow> xml \<Rightarrow> content result"

text \<open>\<open>repr(ex)\<close> of an exception, as the warning of \<open>root_element\<close> prints it.\<close>

fun repr :: "exn \<Rightarrow> string" where
  "repr (KeyError m) = ''KeyError('' @ [CHR 0x27] @ m @ [CHR 0x27] @ '')''"
| "repr IndexError = ''IndexError()''"
| "repr (ValueError m) = ''ValueError('' @ [CHR 0x27] @ m @ [CHR 0x27] @ '')''"
| "repr (AttributeError m) = ''AttributeError('' @ [CHR 0x27] @ m @ [CHR 0x27] @ '')''"
| "repr (OSError m) = ''OSError('' @ [CHR 0x27] @ m @ [CHR 0x27] @ '')''"
| "repr (XMLSyntaxError m) = ''XMLSyntaxError('' @ [CHR 0x27] @ m @ [CHR 0x27] @ '')''"

subsection \<open>The class \<open>DocxReader\<close>: state and cached properties\<close>

text \<open>
  The attributes set by \<open>DocxReader.__init__\<close> and its three caches. \<open>warnings\<close> is the
  list of messages passed to \<open>warn\<close> so far, oldest first; it is kept with the reader
  because every warning of the module is emitted on behalf of one.
\<close>

record DocxReader =
  docx_filename :: string
  do_pStyle :: bool
  xml2html_format :: "(string \<times> string) list"
  zipf_cache :: "ZipFile option"
  files_cache :: "File list option"
  numId2NumFmts_cache :: "numFmts option"
  warnings :: "string list"

definition warn :: "DocxReader \<Rightarrow> string \<Rightarrow> DocxReader" where
  "warn self msg = self\<lparr>warnings := warnings self @ [msg]\<rparr>"

text \<open>
  \<open>DocxReader.__init__\<close> (lines 237-254); \<open>XML2HTML_FORMATTER\<close> is a constant of a
  module outside \<open>src/\<close> and is passed in.
\<close>

definition DocxReader_init ::
  "(string \<times> string) list \<Rightarrow> string \<Rightarrow> bool \<Rightarrow> bool \<Rightarrow> DocxReader" where
  "DocxReader_init XML2HTML_FORMATTER filename html paragraph_styles =
     \<lparr>docx_filename = filename, do_pStyle = paragraph_styles,
      xml2html_format = (if html then XML2HTML_FORMATTER else []),
      zipf_cache = None, files_cache = None, numId2NumFmts_cache = None, warnings = []\<rparr>"

text \<open>The property \<open>zipf\<close> (lines 256-265).\<close>

definition zipf :: "externals \<Rightarrow> DocxReader \<Rightarrow> ZipFile result \<times> DocxReader" where
  "zipf ext self =
     (case zipf_cache self of
        Some z \<Rightarrow> (Inr z, self)
      | None \<Rightarrow>
          (case zip_open ext (docx_filename self) of
             Inl e \<Rightarrow> (Inl e, self)
           | Inr z \<Rightarrow> (Inr z, self\<lparr>zipf_cache := Some z\<rparr>)))"

text \<open>
  The property \<open>files\<close> (lines 267-279). The list comprehension builds one \<open>File\<close> per
  relationship record, \<open>{**x, "dir": ...}\<close> putting \<open>dir\<close> in front of the record's own
  keys; the loop appends the lists in the order of the collector's items.
\<close>

fun File_init_all :: "string \<Rightarrow> (string \<times> string) list list \<Rightarrow> File list result" where
  "File_init_all d [] = Inr []"
| "File_init_all d (x # xs) =
     (case File_init ((''dir'', d) # x) of
        Inl e \<Rightarrow> Inl e
      | Inr f \<Rightarrow>
          (case File_init_all d xs of
             Inl e \<Rightarrow> Inl e
           | Inr fs \<Rightarrow> Inr (f # fs)))"

fun files_loop ::
  "(string \<times> (string \<times> string) list list) list \<Rightarrow> File list \<Rightarrow> File list result" where
  "files_loop [] files = Inr files"
| "files_loop ((k, v) # kvs) files =
     (case File_init_all (dirname k) v of
        Inl e \<Rightarrow> Inl e
      | Inr fs \<Rightarrow> files_loop kvs (files @ fs))"

definition files :: "externals \<Rightarrow> DocxReader \<Rightarrow> File list result \<times> DocxReader" where
  "files ext self =
     (case files_cache self of
        Some fs \<Rightarrow> (Inr fs, self)
      | None \<Rightarrow>
          (case zipf ext self of
             (Inl e, self1) \<Rightarrow> (Inl e, self1)
           | (Inr z, self1) \<Rightarrow>
               (case collect_rels ext z of
                  Inl e \<Rightarrow> (Inl e, self1)
                | Inr items \<Rightarrow>
                    (case files_loop items [] of
                       Inl e \<Rightarrow> (Inl e, self1)
                     | Inr fs \<Rightarrow> (Inr fs, self1\<lparr>files_cache := Some fs\<rparr>)))))"

text \<open>
  The property \<open>numId2numFmts\<close> (lines 282-301): the body of the \<open>try\<close>, then the
  handler, which turns a \<open>KeyError\<close> into the empty table and lets anything else pass.
\<close>

definition numFmts_try :: "externals \<Rightarrow> DocxReader \<Rightarrow> numFmts result \<times> DocxReader" where
  "numFmts_try ext self =
     (case zipf ext self of
        (Inl e, self1) \<Rightarrow> (Inl e, self1)
      | (Inr z, self1) \<Rightarrow>
          (case ZipFile_read z ''word/numbering.xml'' of
             Inl e \<Rightarrow> (Inl e, self1)
           | Inr b \<Rightarrow>
               (case fromstring ext b of
                  Inl e \<Rightarrow> (Inl e, self1)
                | Inr numFmts_root \<Rightarrow> (collect_numFmts ext numFmts_root, self1))))"

definition numId2numFmts :: "externals \<Rightarrow> DocxReader \<Rightarrow> numFmts result \<times> DocxReader" where
  "numId2numFmts ext self =
     (case numId2NumFmts_cache self of
        Some t \<Rightarrow> (Inr t, self)
      | None \<Rightarrow>
          (case numFmts_try ext self of
             (Inr t, self1) \<Rightarrow> (Inr t, self1\<lparr>numId2NumFmts_cache := Some t\<rparr>)
           | (Inl e, self1) \<Rightarrow>
               (if is_KeyError e then (Inr [], self1\<lparr>numId2NumFmts_cache := Some []\<rparr>)
                else (Inl e, self1))))"

subsection \<open>The class \<open>File\<close>: properties that read the archive\<close>

text \<open>
  The property \<open>File.rels\<close> (lines 152-186). The dict comprehension reads \<open>Id\<close> and
  \<open>Target\<close> of every child of the root; a later child overwrites an earlier one with
  the same \<open>Id\<close>. \<open>self.context.zipf\<close> is evaluated before \<open>self._rels_path\<close>.
\<close>

fun rels_of :: "xml list \<Rightarrow> (string \<times> string) list \<Rightarrow> (string \<times> string) list result" where
  "rels_of [] acc = Inr acc"
| "rels_of (x # xs) acc =
     (case dict_get (attrib x) ''Id'' of
        Inl e \<Rightarrow> Inl e
      | Inr i \<Rightarrow>
          (case dict_get (attrib x) ''Target'' of
             Inl e \<Rightarrow> Inl e
           | Inr t \<Rightarrow> rels_of xs (AList.update i t acc)))"

definition rels_try ::
  "externals \<Rightarrow> DocxReader \<Rightarrow> File \<Rightarrow> (string \<times> string) list result \<times> DocxReader \<times> File" where
  "rels_try ext context self =
     (case zipf ext context of
        (Inl e, context1) \<Rightarrow> (Inl e, context1, self)
      | (Inr z, context1) \<Rightarrow>
          (let (rp, self1) = File_rels_path self
           in case ZipFile_read z rp of
                Inl e \<Rightarrow> (Inl e, context1, self1)
              | Inr unzipped \<Rightarrow>
                  (case fromstring ext unzipped of
                     Inl e \<Rightarrow> (Inl e, context1, self1)
                   | Inr tree \<Rightarrow> (rels_of (children tree) [], context1, self1))))"

definition File_rels ::
  "externals \<Rightarrow> DocxReader \<Rightarrow> File \<Rightarrow> (string \<times> string) list result \<times> DocxReader \<times> File" where
  "File_rels ext context self =
     (case rels_cache self of
        Some r \<Rightarrow> (Inr r, context, self)
      | None \<Rightarrow>
          (case rels_try ext context self of
             (Inr r, context1, self1) \<Rightarrow> (Inr r, context1, self1\<lparr>rels_cache := Some r\<rparr>)
           | (Inl e, context1, self1) \<Rightarrow>
               (if is_KeyError e then (Inr [], context1, self1\<lparr>rels_cache := Some []\<rparr>)
                else (Inl e, context1, self1))))"

text \<open>
  The property \<open>File.root_element\<close> (lines 188-212). \<open>root'\<close> stands for \<open>root_\<close>, the copy taken before
  \<open>merge_elems\<close> runs; \<open>root\<close> names the tree that \<open>merge_elems\<close> works on, so after the
  call it is the tree as \<open>merge_elems\<close> left it. The handler of line 204 catches every
  exception, warns, and assigns \<open>root_\<close> (line 210); line 211 then assigns \<open>root\<close> on
  every path.
\<close>

definition merge_warning :: "DocxReader \<Rightarrow> string \<Rightarrow> exn \<Rightarrow> string" where
  "merge_warning context p ex =
     ''Attempt to merge consecutive elements in '' @ docx_filename context @ '' '' @ p
       @ '' resulted in '' @ repr ex @ ''. Moving on.''"

definition File_root_element ::
  "externals \<Rightarrow> DocxReader \<Rightarrow> File \<Rightarrow> xml result \<times> DocxReader \<times> File" where
  "File_root_element ext context self =
     (case root_element_cache self of
        Some r \<Rightarrow> (Inr r, context, self)
      | None \<Rightarrow>
          (case zipf ext context of
             (Inl e, context1) \<Rightarrow> (Inl e, context1, self)
           | (Inr z, context1) \<Rightarrow>
               (let (p, self1) = File_path self
                in case ZipFile_read z p of
                     Inl e \<Rightarrow> (Inl e, context1, self1)
                   | Inr b \<Rightarrow>
                       (case fromstring ext b of
                          Inl e \<Rightarrow> (Inl e, context1, self1)
                        | Inr parsed \<Rightarrow>
                            (if Type self1 \<in> CONTENT_FILE_TYPES
                             then
                               (let root' = parsed;
                                    (raised, root) = merge_elems ext self1 parsed
                                in case raised of
                                     None \<Rightarrow>
                                       (Inr root, context1,
                                        self1\<lparr>root_element_cache := Some root\<rparr>)
                                   | Some ex \<Rightarrow>
                                       (let context2 = warn context1 (merge_warning context1 p ex);
                                            self2 = self1\<lparr>root_element_cache := Some root'\<rparr>;
                                            self3 = self2\<lparr>root_element_cache := Some root\<rparr>
                                        in (Inr root, context2, self3)))
                             else (Inr parsed, context1,
                                   self1\<lparr>root_element_cache := Some parsed\<rparr>))))))"

text \<open>
  Modelled from the spec: \<open>get_text\<close> of \<open>docx_text.py\<close>, which is not under \<open>src/\<close>.
  Section 4.2 says it is passed "either the cached root or a caller-supplied root", so
  without a root it reads the part's \<open>root_element\<close>. \<open>File.content\<close> (lines 214-217) and
  \<open>File.get_content\<close> (lines 219-228) only call it; neither stores its result.
\<close>

definition get_text_call ::
  "externals \<Rightarrow> DocxReader \<Rightarrow> File \<Rightarrow> xml option \<Rightarrow> content result \<times> DocxReader \<times> File" where
  "get_text_call ext context file root =
     (case root of
        Some r \<Rightarrow> (get_text ext file r, context, file)
      | None \<Rightarrow>
          (case File_root_element ext context file of
             (Inl e, context1, file1) \<Rightarrow> (Inl e, context1, file1)
           | (Inr r, context1, file1) \<Rightarrow> (get_text ext file1 r, context1, file1)))"

definition File_content ::
  "externals \<Rightarrow> DocxReader \<Rightarrow> File \<Rightarrow> content result \<times> DocxReader \<times> File" where
  "File_content ext context self = get_text_call ext context self None"

definition File_get_content ::
  "externals \<Rightarrow> DocxReader \<Rightarrow> File \<Rightarrow> xml option \<Rightarrow> content result \<times> DocxReader \<times> File" where
  "File_get_content ext context self root = get_text_call ext context self root"

subsection \<open>The class \<open>DocxReader\<close>: lookup by type\<close>

text \<open>
  \<open>sorted(xs, key=attrgetter("path"))\<close>: the key of every element is read once, in the
  order of the list, which fills the element's path cache; the sort is stable.
\<close>

definition sorted_by_path :: "File list \<Rightarrow> File list" where
  "sorted_by_path xs = map snd (sort_key fst (map File_path xs))"

text \<open>
  The \<open>File\<close> objects of a result are the objects of \<open>self.__files\<close>, so a cache filled
  through the result is filled in the reader's list too: \<open>replace_where P xs ys\<close> puts
  the objects \<open>ys\<close> back at the places of the elements of \<open>xs\<close> that satisfy \<open>P\<close>.
\<close>

fun replace_where :: "('a \<Rightarrow> bool) \<Rightarrow> 'a list \<Rightarrow> 'a list \<Rightarrow> 'a list" where
  "replace_where P [] ys = []"
| "replace_where P (x # xs) ys =
     (if P x then (case ys of [] \<Rightarrow> x # xs | y # ys' \<Rightarrow> y # replace_where P xs ys')
      else x # replace_where P xs ys)"

text \<open>\<open>files_of_type\<close> (lines 323-340).\<close>

definition files_of_type ::
  "externals \<Rightarrow> DocxReader \<Rightarrow> string option \<Rightarrow> File list result \<times> DocxReader" where
  "files_of_type ext self type' =
     (let types = (case type' of None \<Rightarrow> CONTENT_FILE_TYPES | Some t \<Rightarrow> {t})
      in case files ext self of
           (Inl e, self1) \<Rightarrow> (Inl e, self1)
         | (Inr fs, self1) \<Rightarrow>
             (let matching = filter (\<lambda>x. Type x \<in> types) fs
              in (Inr (sorted_by_path matching),
                  self1\<lparr>files_cache :=
                    Some (replace_where (\<lambda>x. Type x \<in> types) fs
                            (map (\<lambda>x. snd (File_path x)) matching))\<rparr>)))"

text \<open>
  \<open>file_of_type\<close> (lines 303-321). Neither message is an f-string where it names its
  placeholder: the warning is a plain literal, and of the two literals of the
  \<open>KeyError\<close> only the first carries the \<open>f\<close> prefix.
\<close>

definition file_of_type ::
  "externals \<Rightarrow> DocxReader \<Rightarrow> string \<Rightarrow> File result \<times> DocxReader" where
  "file_of_type ext self type' =
     (case files_of_type ext self (Some type') of
        (Inl e, self1) \<Rightarrow> (Inl e, self1)
      | (Inr found, self1) \<Rightarrow>
          (let self2 =
                 (if length found > 1
                  then warn self1 ''Multiple files of type '{type_}' found. Returning first.''
                  else self1)
           in case found of
                [] \<Rightarrow>
                  (Inl (KeyError (''There is no item of type '' @ [CHR 0x27] @ type' @ [CHR 0x27]
                          @ '' '' @ ''in the {self.docx_filename} archive'')), self2)
              | f # _ \<Rightarrow> (Inr f, self2)))"

text \<open>\<open>content_files\<close> (lines 342-348).\<close>

definition content_files :: "externals \<Rightarrow> DocxReader \<Rightarrow> File list result \<times> DocxReader" where
  "content_files ext self = files_of_type ext self None"

subsection \<open>Saving: \<open>_copy_but\<close> and \<open>DocxReader.save\<close>\<close>

text \<open>
  \<open>_copy_but\<close> (lines 400-416): the loop over \<open>in_zip.infolist()\<close>, then both handles
  are closed (lines 415 and 416). An exception leaves the loop before the two
  \<open>close\<close> calls.
\<close>

fun copy_loop ::
  "ZipFile \<Rightarrow> ZipFile \<Rightarrow> string set \<Rightarrow> (string \<times> bytes) list \<Rightarrow> unit result \<times> ZipFile" where
  "copy_loop in_zip out_zip exclusions [] = (Inr (), out_zip)"
| "copy_loop in_zip out_zip exclusions (item # items) =
     (if fst item \<notin> exclusions
      then (case ZipFile_read in_zip (fst item) of
              Inl e \<Rightarrow> (Inl e, out_zip)
            | Inr buffer \<Rightarrow>
                (case ZipFile_writestr out_zip (fst item) buffer of
                   (Inl e, out_zip1) \<Rightarrow> (Inl e, out_zip1)
                 | (Inr u, out_zip1) \<Rightarrow> copy_loop in_zip out_zip1 exclusions items))
      else copy_loop in_zip out_zip exclusions items)"

definition copy_but ::
  "ZipFile \<Rightarrow> ZipFile \<Rightarrow> string set option \<Rightarrow> unit result \<times> ZipFile \<times> ZipFile" where
  "copy_but in_zip out_zip exclusions =
     (let excl = (case exclusions of None \<Rightarrow> {} | Some s \<Rightarrow> s)
      in case copy_loop in_zip out_zip excl (ZipFile_infolist in_zip) of
           (Inl e, out_zip1) \<Rightarrow> (Inl e, in_zip, out_zip1)
         | (Inr u, out_zip1) \<Rightarrow> (Inr (), ZipFile_close in_zip, ZipFile_close out_zip1))"

text \<open>
  The loop of \<open>save\<close> (lines 363-364) over the content files. The arguments of
  \<open>writestr\<close> are evaluated first: \<open>file.path\<close>, then \<open>file.root_element\<close>. The result
  carries the reader, the output archive and the content files as the loop left
  them.
\<close>

fun save_loop ::
  "externals \<Rightarrow> DocxReader \<Rightarrow> ZipFile \<Rightarrow> File list
     \<Rightarrow> unit result \<times> DocxReader \<times> ZipFile \<times> File list" where
  "save_loop ext self zout [] = (Inr (), self, zout, [])"
| "save_loop ext self zout (file # rest) =
     (let (p, file1) = File_path file
      in case File_root_element ext self file1 of
           (Inl e, self1, file2) \<Rightarrow> (Inl e, self1, zout, file2 # rest)
         | (Inr root, self1, file2) \<Rightarrow>
             (case ZipFile_writestr zout p (tostring ext root) of
                (Inl e, zout1) \<Rightarrow> (Inl e, self1, zout1, file2 # rest)
              | (Inr u, zout1) \<Rightarrow>
                  (case save_loop ext self1 zout1 rest of
                     (r, self2, zout2, rest') \<Rightarrow> (r, self2, zout2, file2 # rest'))))"

text \<open>
  \<open>save\<close> (lines 350-364). The result is what the call raised, if anything, the
  reader afterwards, and the archive written at \<open>filename\<close> (none when \<open>self.files\<close>
  raised before the output was created). The \<open>with\<close> statement closes the output on
  every way out; \<open>_copy_but\<close> has closed the reader's own handle, which stays cached.
\<close>

definition save ::
  "externals \<Rightarrow> DocxReader \<Rightarrow> string \<Rightarrow> unit result \<times> DocxReader \<times> ZipFile option" where
  "save ext self filename =
     (case files ext self of
        (Inl e, self1) \<Rightarrow> (Inl e, self1, None)
      | (Inr fs, self1) \<Rightarrow>
          (let content_files = filter (\<lambda>x. Type x \<in> CONTENT_FILE_TYPES) fs;
               zout = ZipFile_create
           in case zipf ext self1 of
                (Inl e, self2) \<Rightarrow> (Inl e, self2, Some (ZipFile_close zout))
              | (Inr in_zip, self2) \<Rightarrow>
                  (let keyed = map File_path content_files;
                       (r, in_zip1, zout1) = copy_but in_zip zout (Some (set (map fst keyed)));
                       self3 = self2\<lparr>zipf_cache := Some in_zip1\<rparr>
                   in case r of
                        Inl e \<Rightarrow>
                          (Inl e,
                           self3\<lparr>files_cache :=
                             Some (replace_where (\<lambda>x. Type x \<in> CONTENT_FILE_TYPES) fs
                                     (map snd keyed))\<rparr>,
                           Some (ZipFile_close zout1))
                      | Inr u \<Rightarrow>
                          (case save_loop ext self3 zout1 (map snd keyed) of
                             (r', self4, zout2, content_files') \<Rightarrow>
                               (r',
                                self4\<lparr>files_cache :=
                                  Some (replace_where (\<lambda>x. Type x \<in> CONTENT_FILE_TYPES) fs
                                          content_files')\<rparr>,
                                Some (ZipFile_close zout2))))))"

subsection \<open>Images, and closing\<close>

text \<open>
  \<open>posixpath.join\<close> of two components; the effects of \<open>pull_image_files\<close> on the file
  system, in order.
\<close>

definition path_join :: "string \<Rightarrow> string \<Rightarrow> string" where
  "path_join a b =
     (if take 1 b = ''/'' then b
      else if a = [] \<or> take 1 (rev a) = ''/'' then a @ b
      else a @ ''/'' @ b)"

datatype fs_effect = Mkdir string | WriteFile string bytes

text \<open>
  The first loop of \<open>pull_image_files\<close> (lines 384-386): \<open>suppress(KeyError)\<close> skips the
  assignment when reading raises \<open>KeyError\<close> and lets every other exception pass. The
  images come from \<open>files_of_type\<close>, which has filled their path caches.
\<close>

fun pull_loop ::
  "externals \<Rightarrow> DocxReader \<Rightarrow> File list \<Rightarrow> (string \<times> bytes) list
     \<Rightarrow> (string \<times> bytes) list result \<times> DocxReader" where
  "pull_loop ext self [] images = (Inr images, self)"
| "pull_loop ext self (img # rest) images =
     (case zipf ext self of
        (Inl e, self1) \<Rightarrow>
          (if is_KeyError e then pull_loop ext self1 rest images else (Inl e, self1))
      | (Inr z, self1) \<Rightarrow>
          (case ZipFile_read z (fst (File_path img)) of
             Inl e \<Rightarrow>
               (if is_KeyError e then pull_loop ext self1 rest images else (Inl e, self1))
           | Inr b \<Rightarrow>
               pull_loop ext self1 rest (AList.update (basename (Target img)) b images)))"

text \<open>
  \<open>pull_image_files\<close> (lines 366-392): the mapping (a dict, in insertion order), the
  reader, and what was written to disk.
\<close>

definition pull_image_files ::
  "externals \<Rightarrow> DocxReader \<Rightarrow> string option
     \<Rightarrow> (string \<times> bytes) list result \<times> DocxReader \<times> fs_effect list" where
  "pull_image_files ext self image_directory =
     (case files_of_type ext self (Some ''image'') of
        (Inl e, self1) \<Rightarrow> (Inl e, self1, [])
      | (Inr found, self1) \<Rightarrow>
          (case pull_loop ext self1 found [] of
             (Inl e, self2) \<Rightarrow> (Inl e, self2, [])
           | (Inr images, self2) \<Rightarrow>
               (Inr images, self2,
                (case image_directory of
                   None \<Rightarrow> []
                 | Some d \<Rightarrow>
                     Mkdir d # map (\<lambda>(file, image_bytes). WriteFile (path_join d file) image_bytes)
                       images))))"

text \<open>
  \<open>close\<close> (lines 394-395) and \<open>__del__\<close> (lines 397-398) call \<open>self.__zipf.close()\<close> on
  whatever the cache holds; \<open>None\<close> has no attribute \<open>close\<close>.
\<close>

definition close :: "DocxReader \<Rightarrow> unit result \<times> DocxReader" where
  "close self =
     (case zipf_cache self of
        None \<Rightarrow> (Inl (AttributeError ''NoneType object has no attribute close''), self)
      | Some z \<Rightarrow> (Inr (), self\<lparr>zipf_cache := Some (ZipFile_close z)\<rparr>))"

definition del :: "DocxReader \<Rightarrow> unit result \<times> DocxReader" where
  "del self =
     (case zipf_cache self of
        None \<Rightarrow> (Inl (AttributeError ''NoneType object has no attribute close''), self)
      | Some z \<Rightarrow> (Inr (), self\<lparr>zipf_cache := Some (ZipFile_close z)\<rparr>))"

text \<open>
  The storage path as section 4.1 of the specification words it: the directory
  portions of \<open>dir\<close> and of \<open>target\<close>, the non-empty ones joined with a slash, then a
  slash and the basename of \<open>target\<close>.
\<close>

definition spec_path :: "string \<Rightarrow> string \<Rightarrow> string" where
  "spec_path d t =
     (let dd = dirname d; td = dirname t;
          combined = (if dd = [] then td else if td = [] then dd else dd @ ''/'' @ td)
      in combined @ ''/'' @ basename t)"

subsection \<open>The lifetime of a reader\<close>

text \<open>
  Every property and method of the module, as an operation on a reader. A property
  or method of a part is applied to the part at a position of the reader's own list
  (\<open>self.__files\<close>), where all parts live, and the part as the call left it takes its
  place; it does nothing when the list has not been built or is shorter.
\<close>

datatype op =
  Path nat
  | RelsPath nat
  | Rels nat
  | RootElement nat
  | Content nat
  | GetContent nat "xml option"
  | Zipf
  | Files
  | NumId2numFmts
  | FileOfType string
  | FilesOfType "string option"
  | ContentFiles
  | Save string
  | PullImageFiles "string option"
  | Close
  | Del

definition on_part :: "DocxReader \<Rightarrow> nat \<Rightarrow> (File \<Rightarrow> DocxReader \<times> File) \<Rightarrow> DocxReader" where
  "on_part self i m =
     (case files_cache self of
        None \<Rightarrow> self
      | Some fs \<Rightarrow>
          if i < length fs
          then (let (self1, f1) = m (fs ! i) in self1\<lparr>files_cache := Some (fs[i := f1])\<rparr>)
          else self)"

text \<open>The reader after one operation, whether the operation returned or raised.\<close>

fun step :: "externals \<Rightarrow> op \<Rightarrow> DocxReader \<Rightarrow> DocxReader" where
  "step ext (Path i) self = on_part self i (\<lambda>f. (self, snd (File_path f)))"
| "step ext (RelsPath i) self = on_part self i (\<lambda>f. (self, snd (File_rels_path f)))"
| "step ext (Rels i) self = on_part self i (\<lambda>f. snd (File_rels ext self f))"
| "step ext (RootElement i) self = on_part self i (\<lambda>f. snd (File_root_element ext self f))"
| "step ext (Content i) self = on_part self i (\<lambda>f. snd (File_content ext self f))"
| "step ext (GetContent i root) self =
     on_part self i (\<lambda>f. snd (File_get_content ext self f root))"
| "step ext Zipf self = snd (zipf ext self)"
| "step ext Files self = snd (files ext self)"
| "step ext NumId2numFmts self = snd (numId2numFmts ext self)"
| "step ext (FileOfType t) self = snd (file_of_type ext self t)"
| "step ext (FilesOfType t) self = snd (files_of_type ext self t)"
| "step ext ContentFiles self = snd (content_files ext self)"
| "step ext (Save filename) self = fst (snd (save ext self filename))"
| "step ext (PullImageFiles d) self = fst (snd (pull_image_files ext self d))"
| "step ext Close self = snd (close self)"
| "step ext Del self = snd (del self)"

text \<open>
  A run of operations, each with the collaborators and the archive on disk that are
  in place when it happens.
\<close>

fun run :: "(externals \<times> op) list \<Rightarrow> DocxReader \<Rightarrow> DocxReader" where
  "run [] self = self"
| "run ((ext, operation) # rest) self = run rest (step ext operation self)"

text \<open>
  What "no invalidation" says of two states of one object: a cache that is filled
  holds the same value later. A part keeps its attributes and its four caches; a
  reader keeps its numbering table and its part list, the parts in their order.
\<close>

definition cache_kept :: "'a option \<Rightarrow> 'a option \<Rightarrow> bool" where
  "cache_kept c c' = (case c of None \<Rightarrow> True | Some v \<Rightarrow> c' = Some v)"

definition part_kept :: "File \<Rightarrow> File \<Rightarrow> bool" where
  "part_kept f f' =
     (Id' f' = Id' f \<and> Type f' = Type f \<and> Target f' = Target f \<and> dir f' = dir f
      \<and> cache_kept (path_cache f) (path_cache f')
      \<and> cache_kept (rels_path_cache f) (rels_path_cache f')
      \<and> cache_kept (rels_cache f) (rels_cache f')
      \<and> cache_kept (root_element_cache f) (root_element_cache f'))"

definition kept :: "DocxReader \<Rightarrow> DocxReader \<Rightarrow> bool" where
  "kept self self' =
     (cache_kept (numId2NumFmts_cache self) (numId2NumFmts_cache self')
      \<and> (case files_cache self of
            None \<Rightarrow> True
          | Some fs \<Rightarrow>
              (case files_cache self' of
                 None \<Rightarrow> False
               | Some fs' \<Rightarrow> list_all2 part_kept fs fs')))"

subsection \<open>An example package\<close>

text \<open>
  A small package in the shape of the test resource \<open>example.docx\<close>: a main document,
  styles, two headers declared out of path order, and two images of which the second
  is declared but not stored. The stand-ins for lxml keep the bytes of a part as the
  tag of its root.
\<close>

definition example_archive :: ZipFile where
  "example_archive =
     \<lparr>filelist =
        [(''_rels/.rels'', ''<Relationships/>''),
         (''word/document.xml'', ''<document/>''),
         (''word/styles.xml'', ''<styles/>''),
         (''word/header1.xml'', ''<hdr1/>''),
         (''word/header2.xml'', ''<hdr2/>''),
         (''word/media/image1.png'', ''PNG1'')],
      closed = False\<rparr>"

definition example_rels :: "(string \<times> (string \<times> string) list list) list" where
  "example_rels =
     [(''_rels/.rels'',
       [[(''Id'', ''rId1''), (''Type'', ''http://schemas/relationships/officeDocument''),
         (''Target'', ''word/document.xml'')]]),
      (''word/_rels/document.xml.rels'',
       [[(''Id'', ''rId1''), (''Type'', ''http://schemas/relationships/styles''),
         (''Target'', ''styles.xml'')],
        [(''Id'', ''rId2''), (''Type'', ''http://schemas/relationships/header''),
         (''Target'', ''header2.xml'')],
        [(''Id'', ''rId3''), (''Type'', ''http://schemas/relationships/header''),
         (''Target'', ''header1.xml'')],
        [(''Id'', ''rId4''), (''Type'', ''http://schemas/relationships/image''),
         (''Target'', ''media/image1.png'')],
        [(''Id'', ''rId5''), (''Type'', ''http://schemas/relationships/image''),
         (''Target'', ''media/image2.jpg'')]])]"

definition example_ext :: externals where
  "example_ext =
     \<lparr>zip_open = (\<lambda>name. if name = ''example.docx'' then Inr example_archive
                          else Inl (OSError name)),
      fromstring = (\<lambda>b. Inr (Element b [] [] [])),
      tostring = tag,
      collect_rels = (\<lambda>z. Inr example_rels),
      collect_numFmts = (\<lambda>r. Inr []),
      merge_elems = (\<lambda>f r. (None, r)),
      get_text = (\<lambda>f r. Inr [[[[tag r]]]])\<rparr>"

definition example_reader :: DocxReader where
  "example_reader = DocxReader_init [] ''example.docx'' False False"

text \<open>The parts of the example, as \<open>files\<close> builds them.\<close>

definition part :: "string \<Rightarrow> string \<Rightarrow> string \<Rightarrow> string \<Rightarrow> File" where
  "part i ty ta d =
     \<lparr>Id' = i, Type = ty, Target = ta, dir = d, path_cache = None, rels_path_cache = None,
      rels_cache = None, root_element_cache = None\<rparr>"

definition example_files :: "File list" where
  "example_files =
     [part ''rId1'' ''officeDocument'' ''word/document.xml'' ''_rels'',
      part ''rId1'' ''styles'' ''styles.xml'' ''word/_rels'',
      part ''rId2'' ''header'' ''header2.xml'' ''word/_rels'',
      part ''rId3'' ''header'' ''header1.xml'' ''word/_rels'',
      part ''rId4'' ''image'' ''media/image1.png'' ''word/_rels'',
      part ''rId5'' ''image'' ''media/image2.jpg'' ''word/_rels'']"

text \<open>
  The main document part, and collaborators whose \<open>merge_elems\<close> changes the tree
  and then raises.
\<close>

definition document_part :: File where
  "document_part = part ''rId1'' ''officeDocument'' ''word/document.xml'' ''_rels''"

definition failing_merge_ext :: externals where
  "failing_merge_ext =
     example_ext\<lparr>merge_elems :=
       (\<lambda>f r. (Some (ValueError ''merge failed''), Element ''partly merged'' [] [] [r]))\<rparr>"

text \<open>
  A package in which two image parts, declared by two rels files, have the same
  target basename: once with only the entry of the part that sorts first stored, once
  with both entries stored.
\<close>

definition shared_rels :: "(string \<times> (string \<times> string) list list) list" where
  "shared_rels =
     [(''word/_rels/document.xml.rels'',
       [[(''Id'', ''rId1''), (''Type'', ''http://schemas/relationships/image''),
         (''Target'', ''media/logo.png'')]]),
      (''alt/_rels/cover.xml.rels'',
       [[(''Id'', ''rId1''), (''Type'', ''http://schemas/relationships/image''),
         (''Target'', ''media/logo.png'')]])]"

definition shared_files :: "File list" where
  "shared_files =
     [part ''rId1'' ''image'' ''media/logo.png'' ''word/_rels'',
      part ''rId1'' ''image'' ''media/logo.png'' ''alt/_rels'']"

definition first_only_archive :: ZipFile where
  "first_only_archive = \<lparr>filelist = [(''alt/media/logo.png'', ''ALT'')], closed = False\<rparr>"

definition both_archive :: ZipFile where
  "both_archive =
     \<lparr>filelist = [(''word/media/logo.png'', ''WORD''), (''alt/media/logo.png'', ''ALT'')],
      closed = False\<rparr>"

definition first_only_ext :: externals where
  "first_only_ext =
     example_ext\<lparr>zip_open := (\<lambda>name. Inr first_only_archive),
                 collect_rels := (\<lambda>z. Inr shared_rels)\<rparr>"

definition both_ext :: externals where
  "both_ext =
     example_ext\<lparr>zip_open := (\<lambda>name. Inr both_archive),
                 collect_rels := (\<lambda>z. Inr shared_rels)\<rparr>"

definition shared_reader :: DocxReader where
  "shared_reader = DocxReader_init [] ''shared.docx'' False False"

text \<open>
  The image parts among \<open>fs\<close> with target basename \<open>k\<close> whose entry is stored in the
  archive \<open>z\<close>, in the order in which \<open>pull_image_files\<close> visits them (ascending
  storage path).
\<close>

definition stored_images :: "ZipFile \<Rightarrow> File list \<Rightarrow> string \<Rightarrow> File list" where
  "stored_images z fs k =
     filter (\<lambda>f. basename (Target f) = k \<and> fst (File_path f) \<in> fst ` set (filelist z))
       (sorted_by_path (filter (\<lambda>x. Type x = ''image'') fs))"

text \<open>
  The example reader with its part list read, and a run that looks parts up by type,
  pulls the images with another archive in place, saves and closes.
\<close>

definition example_loaded :: DocxReader where
  "example_loaded = snd (files example_ext example_reader)"

definition example_steps :: "(externals \<times> op) list" where
  "example_steps =
     [(example_ext, FilesOfType (Some ''header'')),
      (both_ext, PullImageFiles None),
      (example_ext, FilesOfType None),
      (example_ext, Save ''copy.docx''),
      (example_ext, Close)]"

section \<open>Theorems\<close>

subsection \<open>The storage path\<close>

lemma File_path_cached: "path_cache self = Some p \<Longrightarrow> File_path self = (p, self)"
  by (simp add: File_path_def)

lemma File_path_again: "File_path (snd (File_path f)) = (fst (File_path f), snd (File_path f))"
  by (simp add: File_path_def Let_def split: option.splits)

lemma File_path_Type [simp]: "Type (snd (File_path f)) = Type f"
  by (simp add: File_path_def Let_def split: option.splits)

lemma File_path_Target [simp]: "Target (snd (File_path f)) = Target f"
  by (simp add: File_path_def Let_def split: option.splits)

lemma File_path_key [simp]: "fst (File_path (snd (File_path f))) = fst (File_path f)"
  by (simp add: File_path_again)

text \<open>
  Claim C3. For every pair (dir, target), \<open>path\<close> returns the directory portions of
  \<open>dir\<close> and of \<open>target\<close>, the non-empty ones joined with a slash, followed by a slash
  and the basename of \<open>target\<close>. The computation is a function of the part alone (no
  archive and no reader is among the arguments of \<open>File_path\<close>), and a second call on
  the part as the first call left it returns the same string and leaves the part as
  it is.
\<close>

theorem File_path_spec:
  "path_cache self = None \<Longrightarrow>
     fst (File_path self) = spec_path (dir self) (Target self) \<and>
     File_path (snd (File_path self)) = (fst (File_path self), snd (File_path self))"
  by (simp add: File_path_again) (simp add: File_path_def spec_path_def Let_def)

theorem File_path_spec_witness:
  "fst (File_path (part ''rId3'' ''header'' ''header1.xml'' ''word/_rels'')) = ''word/header1.xml'' \<and>
   fst (File_path (part ''rId1'' ''officeDocument'' ''word/document.xml'' ''_rels''))
     = ''word/document.xml'' \<and>
   fst (File_path (part ''rId9'' ''x'' ''top.xml'' ''_rels'')) = ''/top.xml''"
proof -
  have h: "\<And>i ty ta d. path_cache (part i ty ta d) = None" by (simp add: part_def)
  show ?thesis
    using File_path_spec [OF h, of "''rId3''" "''header''" "''header1.xml''" "''word/_rels''"]
      File_path_spec [OF h, of "''rId1''" "''officeDocument''" "''word/document.xml''" "''_rels''"]
      File_path_spec [OF h, of "''rId9''" "''x''" "''top.xml''" "''_rels''"]
    by (simp add: part_def spec_path_def dirname_def basename_def path_head_def path_tail_def
        rstrip_sep_def)
qed

subsection \<open>Sorting by path\<close>

lemma sorted_by_path_mset:
  "mset (sorted_by_path xs) = mset (map (\<lambda>x. snd (File_path x)) xs)"
  by (simp add: sorted_by_path_def multiset.map_comp o_def)

lemma sorted_by_path_set:
  "set (sorted_by_path xs) = (\<lambda>x. snd (File_path x)) ` set xs"
  by (simp add: sorted_by_path_def image_image)

lemma sorted_by_path_length [simp]: "length (sorted_by_path xs) = length xs"
  by (simp add: sorted_by_path_def)

lemma sorted_by_path_keys:
  "map (\<lambda>f. fst (File_path f)) (sorted_by_path xs) = map fst (sort_key fst (map File_path xs))"
proof -
  have "map (\<lambda>f. fst (File_path f)) (sorted_by_path xs)
      = map (\<lambda>y. fst (File_path (snd y))) (sort_key fst (map File_path xs))"
    by (simp add: sorted_by_path_def o_def)
  also have "\<dots> = map fst (sort_key fst (map File_path xs))"
    by (rule map_cong) auto
  finally show ?thesis .
qed

lemma sorted_by_path_sorted: "sorted (map (\<lambda>f. fst (File_path f)) (sorted_by_path xs))"
  by (simp add: sorted_by_path_keys)

lemma zipf_warnings: "zipf ext self = (r, self1) \<Longrightarrow> warnings self1 = warnings self"
  by (auto simp: zipf_def split: option.splits sum.splits)

lemma files_warnings: "files ext self = (r, self1) \<Longrightarrow> warnings self1 = warnings self"
  by (auto simp: files_def split: option.splits sum.splits prod.splits dest: zipf_warnings)

lemma files_of_type_eq:
  "files ext self = (Inr fs, self1) \<Longrightarrow>
   files_of_type ext self (Some t) =
     (Inr (sorted_by_path (filter (\<lambda>x. Type x = t) fs)),
      self1\<lparr>files_cache := Some (replace_where (\<lambda>x. Type x = t) fs
         (map (\<lambda>x. snd (File_path x)) (filter (\<lambda>x. Type x = t) fs)))\<rparr>)"
  by (simp add: files_of_type_def Let_def)

lemma files_of_type_None_eq:
  "files ext self = (Inr fs, self1) \<Longrightarrow>
   files_of_type ext self None =
     (Inr (sorted_by_path (filter (\<lambda>x. Type x \<in> CONTENT_FILE_TYPES) fs)),
      self1\<lparr>files_cache := Some (replace_where (\<lambda>x. Type x \<in> CONTENT_FILE_TYPES) fs
         (map (\<lambda>x. snd (File_path x)) (filter (\<lambda>x. Type x \<in> CONTENT_FILE_TYPES) fs)))\<rparr>)"
  by (simp add: files_of_type_def Let_def)

lemma sorted_by_path_hd_least:
  assumes "xs \<noteq> []" and "g \<in> set xs"
  shows "fst (File_path (hd (sorted_by_path xs))) \<le> fst (File_path g)"
proof -
  let ?ks = "map (\<lambda>f. fst (File_path f)) (sorted_by_path xs)"
  have ne: "sorted_by_path xs \<noteq> []" using assms(1) sorted_by_path_length [of xs] by (metis length_0_conv)
  have srt: "sorted ?ks" by (rule sorted_by_path_sorted)
  have "set ?ks = (\<lambda>x. fst (File_path x)) ` set xs"
    by (simp add: sorted_by_path_set image_image)
  then have "fst (File_path g) \<in> set ?ks"
    using assms(2) by blast
  moreover have "?ks = fst (File_path (hd (sorted_by_path xs))) # tl ?ks"
    using ne by (cases "sorted_by_path xs") simp_all
  ultimately show ?thesis
    using srt by (metis order_refl set_ConsD sorted_simps(2))
qed

subsection \<open>Lookup by type\<close>

text \<open>
  Claim C5. When the reader's parts are \<open>fs\<close> and at least one of them has the
  requested type, \<open>file_of_type\<close> returns one of the matching parts (with its path
  cache filled) whose storage path is less than or equal to the path of every
  matching part, and it emits one warning exactly when more than one part matches.
\<close>

theorem file_of_type_first:
  assumes "files ext self = (Inr fs, self1)"
    and "filter (\<lambda>x. Type x = t) fs \<noteq> []"
  shows "\<exists>f self2. file_of_type ext self t = (Inr f, self2)
           \<and> f \<in> (\<lambda>x. snd (File_path x)) ` set (filter (\<lambda>x. Type x = t) fs)
           \<and> (\<forall>g \<in> set (filter (\<lambda>x. Type x = t) fs). fst (File_path f) \<le> fst (File_path g))
           \<and> warnings self2 = warnings self @
                (if 1 < length (filter (\<lambda>x. Type x = t) fs)
                 then [''Multiple files of type '{type_}' found. Returning first.''] else [])"
proof -
  let ?m = "filter (\<lambda>x. Type x = t) fs"
  let ?r = "sorted_by_path ?m"
  have ne: "?r \<noteq> []" using assms(2) sorted_by_path_length [of ?m] by (metis length_0_conv)
  then obtain f rest where r: "?r = f # rest" by (cases ?r) auto
  have w: "warnings self1 = warnings self" using assms(1) by (rule files_warnings)
  have len: "length ?r = length ?m" by simp
  have fm: "f \<in> (\<lambda>x. snd (File_path x)) ` set ?m"
    using r sorted_by_path_set [of ?m] by (metis list.set_intros(1))
  have least: "\<forall>g \<in> set ?m. fst (File_path f) \<le> fst (File_path g)"
    using sorted_by_path_hd_least [OF assms(2)] r by simp
  have "file_of_type ext self t =
      (Inr f, (if 1 < length ?m
               then warn (snd (files_of_type ext self (Some t))) ''Multiple files of type '{type_}' found. Returning first.''
               else snd (files_of_type ext self (Some t))))"
    using r len by (simp add: file_of_type_def files_of_type_eq [OF assms(1)] Let_def del: sorted_by_path_length)
  moreover have "warnings (snd (files_of_type ext self (Some t))) = warnings self"
    by (simp add: files_of_type_eq [OF assms(1)] w)
  ultimately show ?thesis using fm least by (auto simp: warn_def)
qed

lemma example_files_eq:
  "files example_ext example_reader =
     (Inr example_files,
      example_reader\<lparr>zipf_cache := Some example_archive, files_cache := Some example_files\<rparr>)"
  by code_simp

theorem file_of_type_first_witness:
  "\<exists>f self2. file_of_type example_ext example_reader ''header'' = (Inr f, self2)
      \<and> fst (File_path f) \<le> ''word/header2.xml''
      \<and> warnings self2 = [''Multiple files of type '{type_}' found. Returning first.'']"
proof -
  let ?m = "filter (\<lambda>x. Type x = ''header'') example_files"
  have ne: "?m \<noteq> []"
    by (simp add: example_files_def part_def)
  have two: "1 < length ?m"
    by (simp add: example_files_def part_def)
  have mem: "part ''rId2'' ''header'' ''header2.xml'' ''word/_rels'' \<in> set ?m"
    by (simp add: example_files_def part_def)
  have key: "fst (File_path (part ''rId2'' ''header'' ''header2.xml'' ''word/_rels'')) = ''word/header2.xml''"
    by (simp add: part_def File_path_def Let_def dirname_def basename_def path_head_def path_tail_def
        rstrip_sep_def)
  have w: "warnings example_reader = []"
    by (simp add: example_reader_def DocxReader_init_def)
  from file_of_type_first [OF example_files_eq ne]
  obtain f self2 where r: "file_of_type example_ext example_reader ''header'' = (Inr f, self2)"
    and least: "\<forall>g \<in> set ?m. fst (File_path f) \<le> fst (File_path g)"
    and ws: "warnings self2 = warnings example_reader @
                (if 1 < length ?m
                 then [''Multiple files of type '{type_}' found. Returning first.''] else [])"
    by blast
  from least mem key have "fst (File_path f) \<le> ''word/header2.xml''" by metis
  moreover from ws two w
  have "warnings self2 = [''Multiple files of type '{type_}' found. Returning first.'']"
    by simp
  ultimately show ?thesis using r by blast
qed

lemma content_count:
  "length (filter (\<lambda>x. Type x \<in> CONTENT_FILE_TYPES) fs) =
     length (filter (\<lambda>x. Type x = ''officeDocument'') fs)
     + length (filter (\<lambda>x. Type x = ''header'') fs)
     + length (filter (\<lambda>x. Type x = ''footer'') fs)
     + length (filter (\<lambda>x. Type x = ''footnotes'') fs)
     + length (filter (\<lambda>x. Type x = ''endnotes'') fs)"
  by (induction fs) (auto simp: CONTENT_FILE_TYPES_def)

text \<open>
  Claim C8. When the reader's parts are \<open>fs\<close>, \<open>files_of_type(None)\<close> returns exactly
  the parts whose type is one of the five content types (each with its path cache
  filled, each as often as it occurs), in ascending order of storage path, and the
  length of the result is the sum of the lengths of the five results of
  \<open>files_of_type(t)\<close>, none of which is an error.
\<close>

theorem files_of_type_None:
  assumes "files ext self = (Inr fs, self1)"
  shows "\<exists>r self2 r1 r2 r3 r4 r5.
           files_of_type ext self None = (Inr r, self2)
         \<and> mset r = mset (map (\<lambda>x. snd (File_path x)) (filter (\<lambda>x. Type x \<in> CONTENT_FILE_TYPES) fs))
         \<and> sorted (map (\<lambda>f. fst (File_path f)) r)
         \<and> fst (files_of_type ext self (Some ''officeDocument'')) = Inr r1
         \<and> fst (files_of_type ext self (Some ''header'')) = Inr r2
         \<and> fst (files_of_type ext self (Some ''footer'')) = Inr r3
         \<and> fst (files_of_type ext self (Some ''footnotes'')) = Inr r4
         \<and> fst (files_of_type ext self (Some ''endnotes'')) = Inr r5
         \<and> length r = length r1 + length r2 + length r3 + length r4 + length r5"
  by (simp add: files_of_type_None_eq [OF assms] files_of_type_eq [OF assms]
      sorted_by_path_mset sorted_by_path_sorted content_count)

theorem files_of_type_None_witness:
  "\<exists>r self2. files_of_type example_ext example_reader None = (Inr r, self2)
      \<and> sorted (map (\<lambda>f. fst (File_path f)) r) \<and> length r = 3"
proof -
  have "length (filter (\<lambda>x. Type x \<in> CONTENT_FILE_TYPES) example_files) = 3"
    by (simp add: example_files_def part_def CONTENT_FILE_TYPES_def)
  then have "\<And>r. mset r = mset (map (\<lambda>x. snd (File_path x))
                (filter (\<lambda>x. Type x \<in> CONTENT_FILE_TYPES) example_files)) \<Longrightarrow> length r = 3"
    by (metis length_map size_mset)
  with files_of_type_None [OF example_files_eq] show ?thesis
    by blast
qed

lemma example_content_files:
  "map (\<lambda>f. fst (File_path f)) (case fst (files_of_type example_ext example_reader None) of Inr r \<Rightarrow> r | Inl e \<Rightarrow> [])
     = [''word/document.xml'', ''word/header1.xml'', ''word/header2.xml'']"
  by code_simp

subsection \<open>Where the code departs from its own tests and comments\<close>

text \<open>
  Claim C9 (the code at a reader whose archive was never opened). \<open>close\<close> calls
  \<open>self.__zipf.close()\<close> without the \<open>None\<close> test that the property \<open>zipf\<close> makes:
  on a reader that has not read its archive yet, the first and the second call both
  raise \<open>AttributeError\<close> and change nothing.
\<close>

theorem close_unopened_raises:
  "close example_reader
     = (Inl (AttributeError ''NoneType object has no attribute close''), example_reader) \<and>
   close (snd (close example_reader))
     = (Inl (AttributeError ''NoneType object has no attribute close''), example_reader)"
  by (simp add: close_def example_reader_def DocxReader_init_def)

text \<open>Once the handle exists, closing is idempotent, as the claim says.\<close>

lemma close_twice_opened:
  "zipf_cache self = Some z \<Longrightarrow>
     fst (close self) = Inr () \<and> close (snd (close self)) = (Inr (), snd (close self))"
  by (simp add: close_def ZipFile_close_def)

text \<open>
  Claim C4 (the code at a type without a part). \<open>file_of_type\<close> raises \<open>KeyError\<close>, and
  the message names the requested type, but the second literal of the message lacks
  the \<open>f\<close> prefix: the message holds the text \<open>{self.docx_filename}\<close> and not the name
  of the archive, \<open>example.docx\<close>.
\<close>

theorem file_of_type_missing_message:
  "docx_filename example_reader = ''example.docx'' \<and>
   fst (file_of_type example_ext example_reader ''footer'')
     = Inl (KeyError ''There is no item of type 'footer' in the {self.docx_filename} archive'')"
  by code_simp

text \<open>
  Claim C2 (the code at a \<open>merge_elems\<close> that changes the tree and raises). The
  exception is not propagated and the warning names the archive and the part, but the
  tree returned and cached is the one \<open>merge_elems\<close> left behind, not the tree as
  parsed: line 211 overwrites the assignment of line 210.
\<close>

theorem root_element_keeps_mutated_tree:
  "fromstring failing_merge_ext ''<document/>'' = Inr (Element ''<document/>'' [] [] []) \<and>
   fst (File_root_element failing_merge_ext example_reader document_part)
     = Inr (Element ''partly merged'' [] [] [Element ''<document/>'' [] [] []]) \<and>
   root_element_cache (snd (snd (File_root_element failing_merge_ext example_reader document_part)))
     = Some (Element ''partly merged'' [] [] [Element ''<document/>'' [] [] []]) \<and>
   warnings (fst (snd (File_root_element failing_merge_ext example_reader document_part)))
     = [''Attempt to merge consecutive elements in example.docx word/document.xml resulted in ValueError('merge failed'). Moving on.'']"
  by code_simp

text \<open>
  Claim C1 (the code at a package with content parts). \<open>_copy_but\<close> closes the output
  archive as well as the source, so the loop of \<open>save\<close> that should write the content
  parts raises \<open>ValueError\<close> at its first part: the archive left at the destination
  holds the copied entries only, and no content part.
\<close>

theorem save_raises_on_content:
  "fst (save example_ext example_reader ''copy.docx'')
     = Inl (ValueError ''Attempt to use ZIP archive that was already closed'') \<and>
   snd (snd (save example_ext example_reader ''copy.docx''))
     = Some \<lparr>filelist =
               [(''_rels/.rels'', ''<Relationships/>''),
                (''word/styles.xml'', ''<styles/>''),
                (''word/media/image1.png'', ''PNG1'')],
             closed = True\<rparr>"
  by code_simp

subsection \<open>Reading through an open handle\<close>

lemma zipf_Inr: "zipf ext self = (Inr z, self1) \<Longrightarrow> self1 = self\<lparr>zipf_cache := Some z\<rparr>"
  by (auto simp: zipf_def split: option.splits sum.splits)

lemma zipf_cached: "zipf_cache self = Some z \<Longrightarrow> zipf ext self = (Inr z, self)"
  by (simp add: zipf_def)

lemma zipf_open:
  "fst (zipf ext self) = Inr z \<Longrightarrow> zipf ext self = (Inr z, self\<lparr>zipf_cache := Some z\<rparr>)"
  by (cases "zipf ext self") (auto dest: zipf_Inr)

lemma zipf_reopen [simp]: "fst (zipf ext (self\<lparr>zipf_cache := Some z\<rparr>)) = Inr z"
  by (simp add: zipf_def)

lemma ZipFile_read_open:
  "\<not> closed z \<Longrightarrow> ZipFile_read z name =
     (case map_of (rev (filelist z)) name of None \<Rightarrow> Inl (KeyError name) | Some b \<Rightarrow> Inr b)"
  by (simp add: ZipFile_read_def)

lemma entry_present:
  "(map_of (rev (filelist z)) name = None) = (name \<notin> fst ` set (filelist z))"
  by (simp add: map_of_eq_None_iff)

lemma files_Inr_cases:
  assumes "files ext self = (Inr fs, self1)"
  shows "(files_cache self = Some fs \<and> self1 = self) \<or>
         (files_cache self = None \<and> (\<exists>z. self1 = self\<lparr>zipf_cache := Some z, files_cache := Some fs\<rparr>
             \<and> fst (zipf ext self) = Inr z))"
proof (cases "files_cache self")
  case None
  obtain r s where zs: "zipf ext self = (r, s)" by (cases "zipf ext self")
  show ?thesis
  proof (cases r)
    case (Inl e)
    with assms None zs show ?thesis by (simp add: files_def)
  next
    case (Inr z)
    with zs have s: "s = self\<lparr>zipf_cache := Some z\<rparr>" by (simp add: zipf_Inr)
    from assms None zs Inr s show ?thesis
      by (auto simp: files_def split: sum.splits)
  qed
next
  case (Some a)
  with assms show ?thesis by (simp add: files_def)
qed

lemma zipf_after_files:
  assumes "files ext self = (Inr fs, self1)" and "fst (zipf ext self) = Inr z"
  shows "fst (zipf ext (self1\<lparr>files_cache := c\<rparr>)) = Inr z"
proof -
  have same: "\<And>s. fst (zipf ext (s\<lparr>files_cache := c\<rparr>)) = fst (zipf ext s)"
    by (simp add: zipf_def split: option.splits sum.splits)
  from files_Inr_cases [OF assms(1)] show ?thesis
  proof
    assume "files_cache self = Some fs \<and> self1 = self"
    then show ?thesis using assms(2) by (simp add: same)
  next
    assume "files_cache self = None \<and> (\<exists>z. self1 = self\<lparr>zipf_cache := Some z, files_cache := Some fs\<rparr>
             \<and> fst (zipf ext self) = Inr z)"
    then obtain z' where s1: "self1 = self\<lparr>zipf_cache := Some z', files_cache := Some fs\<rparr>"
      and z': "fst (zipf ext self) = Inr z'" by blast
    from z' assms(2) have "z' = z" by simp
    with s1 show ?thesis by (simp add: zipf_def)
  qed
qed

subsection \<open>Images\<close>

lemma pull_loop_open:
  assumes "fst (zipf ext self) = Inr z" and "\<not> closed z"
  shows "fst (pull_loop ext self imgs acc) =
    Inr (fold (\<lambda>img acc. case map_of (rev (filelist z)) (fst (File_path img)) of
                 None \<Rightarrow> acc | Some b \<Rightarrow> AList.update (basename (Target img)) b acc) imgs acc)"
  using assms(1)
proof (induction imgs arbitrary: self acc)
  case Nil
  then show ?case by simp
next
  case (Cons img imgs)
  have z: "zipf ext self = (Inr z, self\<lparr>zipf_cache := Some z\<rparr>)"
    using Cons.prems by (rule zipf_open)
  have ih: "\<And>acc. fst (pull_loop ext (self\<lparr>zipf_cache := Some z\<rparr>) imgs acc) =
    Inr (fold (\<lambda>img acc. case map_of (rev (filelist z)) (fst (File_path img)) of
                 None \<Rightarrow> acc | Some b \<Rightarrow> AList.update (basename (Target img)) b acc) imgs acc)"
    by (rule Cons.IH) simp
  show ?case
  proof (cases "map_of (rev (filelist z)) (fst (File_path img))")
    case None
    then show ?thesis
      by (simp add: z ZipFile_read_open [OF assms(2)] ih)
  next
    case (Some b)
    then show ?thesis
      by (simp add: z ZipFile_read_open [OF assms(2)] ih)
  qed
qed

lemma map_of_collected:
  "map_of (fold (\<lambda>img acc. case m (key img) of None \<Rightarrow> acc | Some b \<Rightarrow> AList.update (nm img) b acc) imgs acc) k =
     (case filter (\<lambda>f. nm f = k \<and> m (key f) \<noteq> None) imgs of
        [] \<Rightarrow> map_of acc k
      | x # xs \<Rightarrow> m (key (last (x # xs))))"
proof (induction imgs arbitrary: acc)
  case Nil
  then show ?case by simp
next
  case (Cons a imgs)
  show ?case
  proof (cases "filter (\<lambda>f. nm f = k \<and> m (key f) \<noteq> None) imgs")
    case Nil
    show ?thesis
    proof (cases "m (key a)")
      case None
      then show ?thesis using Nil by (simp add: Cons.IH)
    next
      case (Some b)
      show ?thesis
      proof (cases "nm a = k")
        case True
        with Some Nil show ?thesis by (simp add: Cons.IH update_conv')
      next
        case False
        with Some Nil show ?thesis by (simp add: Cons.IH update_conv')
      qed
    qed
  next
    case (Cons y ys)
    show ?thesis
    proof (cases "m (key a)")
      case None
      then show ?thesis using Cons by (simp add: Cons.IH)
    next
      case (Some b)
      show ?thesis
      proof (cases "nm a = k")
        case True
        with Some Cons show ?thesis by (simp add: Cons.IH)
      next
        case False
        with Some Cons show ?thesis by (simp add: Cons.IH)
      qed
    qed
  qed
qed

lemma distinct_collected:
  "distinct (map fst acc) \<Longrightarrow>
   distinct (map fst (fold (\<lambda>img acc. case m (key img) of None \<Rightarrow> acc | Some b \<Rightarrow> AList.update (nm img) b acc) imgs acc))"
proof (induction imgs arbitrary: acc)
  case Nil
  then show ?case by simp
next
  case (Cons a imgs)
  show ?case
  proof (cases "m (key a)")
    case None
    then show ?thesis using Cons.prems by (simp add: Cons.IH)
  next
    case (Some b)
    then show ?thesis using Cons.prems by (simp add: Cons.IH distinct_update)
  qed
qed

lemma pull_image_files_open:
  assumes "files ext self = (Inr fs, self1)" and "fst (zipf ext self) = Inr z" and "\<not> closed z"
  shows "fst (pull_image_files ext self d) =
    Inr (fold (\<lambda>img acc. case map_of (rev (filelist z)) (fst (File_path img)) of
                 None \<Rightarrow> acc | Some b \<Rightarrow> AList.update (basename (Target img)) b acc)
           (sorted_by_path (filter (\<lambda>x. Type x = ''image'') fs)) [])"
proof -
  let ?imgs = "sorted_by_path (filter (\<lambda>x. Type x = ''image'') fs)"
  obtain s where fot: "files_of_type ext self (Some ''image'') = (Inr ?imgs, s)"
    and zs: "fst (zipf ext s) = Inr z"
    using files_of_type_eq [OF assms(1), of "''image''"] zipf_after_files [OF assms(1,2)]
    by blast
  obtain r s2 where pl: "pull_loop ext s ?imgs [] = (r, s2)"
    by (cases "pull_loop ext s ?imgs []")
  with pull_loop_open [OF zs assms(3), of ?imgs "[]"] 
  have r: "r = Inr (fold (\<lambda>img acc. case map_of (rev (filelist z)) (fst (File_path img)) of
                 None \<Rightarrow> acc | Some b \<Rightarrow> AList.update (basename (Target img)) b acc) ?imgs [])"
    by simp
  show ?thesis
    unfolding pull_image_files_def fot by (simp add: pl r)
qed

lemma sorted_last_greatest:
  "sorted (map f xs) \<Longrightarrow> x \<in> set xs \<Longrightarrow> f x \<le> f (last xs)"
proof (induction xs)
  case Nil
  then show ?case by simp
next
  case (Cons a xs)
  then show ?case by (cases "xs = []") auto
qed

lemma sorted_filter_keys: "sorted (map f xs) \<Longrightarrow> sorted (map f (filter P xs))"
  by (induction xs) auto

subsection \<open>Optional resources that are absent\<close>

lemma File_rels_missing:
  assumes "rels_cache file = None" and "fst (zipf ext context) = Inr z" and "\<not> closed z"
    and "fst (File_rels_path file) \<notin> fst ` set (filelist z)"
  shows "fst (File_rels ext context file) = Inr []"
proof -
  obtain rp file1 where rp: "File_rels_path file = (rp, file1)"
    by (cases "File_rels_path file")
  have z: "zipf ext context = (Inr z, context\<lparr>zipf_cache := Some z\<rparr>)"
    using assms(2) by (rule zipf_open)
  have rd: "ZipFile_read z rp = Inl (KeyError rp)"
    using assms(4) rp by (simp add: ZipFile_read_open [OF assms(3)] entry_present [symmetric])
  have "rels_try ext context file = (Inl (KeyError rp), context\<lparr>zipf_cache := Some z\<rparr>, file1)"
    by (simp add: rels_try_def z rp rd)
  then show ?thesis
    using assms(1) by (simp add: File_rels_def)
qed

lemma numId2numFmts_missing:
  assumes "numId2NumFmts_cache self = None" and "fst (zipf ext self) = Inr z" and "\<not> closed z"
    and "''word/numbering.xml'' \<notin> fst ` set (filelist z)"
  shows "fst (numId2numFmts ext self) = Inr []"
proof -
  have z: "zipf ext self = (Inr z, self\<lparr>zipf_cache := Some z\<rparr>)"
    using assms(2) by (rule zipf_open)
  have rd: "ZipFile_read z ''word/numbering.xml'' = Inl (KeyError ''word/numbering.xml'')"
    using assms(4) by (simp add: ZipFile_read_open [OF assms(3)] entry_present [symmetric])
  have "numFmts_try ext self = (Inl (KeyError ''word/numbering.xml''), self\<lparr>zipf_cache := Some z\<rparr>)"
    by (simp add: numFmts_try_def z rd)
  then show ?thesis
    using assms(1) by (simp add: numId2numFmts_def)
qed

lemma map_of_dom: "(k \<in> fst ` set al) = (map_of al k \<noteq> None)"
  by (simp add: map_of_eq_None_iff)

lemma pull_image_files_keys:
  assumes "files ext self = (Inr fs, self1)" and "fst (zipf ext self) = Inr z" and "\<not> closed z"
  shows "\<exists>images. fst (pull_image_files ext self d) = Inr images \<and>
     (\<forall>k. (k \<in> fst ` set images) =
        (\<exists>f \<in> set fs. Type f = ''image'' \<and> basename (Target f) = k
            \<and> fst (File_path f) \<in> fst ` set (filelist z)))"
proof -
  let ?m = "map_of (rev (filelist z))"
  let ?imgs = "sorted_by_path (filter (\<lambda>x. Type x = ''image'') fs)"
  let ?images = "fold (\<lambda>img acc. case ?m (fst (File_path img)) of
                 None \<Rightarrow> acc | Some b \<Rightarrow> AList.update (basename (Target img)) b acc) ?imgs []"
  have res: "fst (pull_image_files ext self d) = Inr ?images"
    by (rule pull_image_files_open [OF assms])
  have keys: "(k \<in> fst ` set ?images) =
        (\<exists>f \<in> set fs. Type f = ''image'' \<and> basename (Target f) = k
            \<and> fst (File_path f) \<in> fst ` set (filelist z))" for k
  proof -
    let ?P = "\<lambda>f. basename (Target f) = k \<and> ?m (fst (File_path f)) \<noteq> None"
    have "(k \<in> fst ` set ?images) = (map_of ?images k \<noteq> None)"
      by (rule map_of_dom)
    also have "\<dots> = (filter ?P ?imgs \<noteq> [])"
    proof (cases "filter ?P ?imgs")
      case Nil
      then show ?thesis
        using map_of_collected [where m = ?m and key = "\<lambda>f. fst (File_path f)"
            and nm = "\<lambda>f. basename (Target f)" and imgs = ?imgs and acc = "[]" and k = k]
        by simp
    next
      case (Cons x xs)
      have "last (x # xs) \<in> set (filter ?P ?imgs)"
        using Cons by (metis last_in_set list.distinct(1))
      then have "?m (fst (File_path (last (x # xs)))) \<noteq> None" by simp
      then show ?thesis
        using Cons map_of_collected [where m = ?m and key = "\<lambda>f. fst (File_path f)"
            and nm = "\<lambda>f. basename (Target f)" and imgs = ?imgs and acc = "[]" and k = k]
        by simp
    qed
    also have "\<dots> = (\<exists>g \<in> set ?imgs. ?P g)"
      by (simp add: filter_empty_conv)
    also have "\<dots> = (\<exists>f \<in> set fs. Type f = ''image'' \<and> ?P f)"
      by (auto simp: sorted_by_path_set)
    also have "\<dots> = (\<exists>f \<in> set fs. Type f = ''image'' \<and> basename (Target f) = k
            \<and> fst (File_path f) \<in> fst ` set (filelist z))"
      by (simp add: entry_present)
    finally show ?thesis .
  qed
  from res keys show ?thesis by blast
qed

lemma pull_image_files_values:
  assumes "files ext self = (Inr fs, self1)" and "fst (zipf ext self) = Inr z" and "\<not> closed z"
  shows "\<exists>images. fst (pull_image_files ext self d) = Inr images \<and>
     (\<forall>k b. (map_of images k = Some b) =
        (stored_images z fs k \<noteq> [] \<and>
         ZipFile_read z (fst (File_path (last (stored_images z fs k)))) = Inr b))"
proof -
  let ?m = "map_of (rev (filelist z))"
  let ?imgs = "sorted_by_path (filter (\<lambda>x. Type x = ''image'') fs)"
  let ?images = "fold (\<lambda>img acc. case ?m (fst (File_path img)) of
                 None \<Rightarrow> acc | Some b \<Rightarrow> AList.update (basename (Target img)) b acc) ?imgs []"
  have res: "fst (pull_image_files ext self d) = Inr ?images"
    by (rule pull_image_files_open [OF assms])
  have val: "(map_of ?images k = Some b) =
        (stored_images z fs k \<noteq> [] \<and>
         ZipFile_read z (fst (File_path (last (stored_images z fs k)))) = Inr b)" for k b
  proof -
    let ?P = "\<lambda>f. basename (Target f) = k \<and> ?m (fst (File_path f)) \<noteq> None"
    have st: "stored_images z fs k = filter ?P ?imgs"
      by (simp add: stored_images_def entry_present)
    have rd: "(ZipFile_read z p = Inr b) = (?m p = Some b)" for p
      by (simp add: ZipFile_read_open [OF assms(3)] split: option.splits)
    note mc = map_of_collected [where m = ?m and key = "\<lambda>f. fst (File_path f)"
            and nm = "\<lambda>f. basename (Target f)" and imgs = ?imgs and acc = "[]" and k = k]
    show ?thesis
    proof (cases "filter ?P ?imgs")
      case Nil
      with mc have "map_of ?images k = None" by simp
      with Nil st show ?thesis by simp
    next
      case (Cons x xs)
      with mc have "map_of ?images k = ?m (fst (File_path (last (x # xs))))" by simp
      with Cons st show ?thesis by (simp add: rd)
    qed
  qed
  from res val show ?thesis by blast
qed

text \<open>
  Claim C7. With the archive handle open (reading through the reader gives the
  handle \<open>z\<close>, and \<open>z\<close> is not closed), the absence of an optional resource is not an
  error: \<open>rels\<close> of a part whose rels entry is not in the archive is the empty
  mapping; \<open>numId2numFmts\<close> without \<open>word/numbering.xml\<close> is the empty mapping; and
  \<open>pull_image_files\<close> returns a mapping. Its keys are exactly the basenames of the
  image parts whose entry is in the archive, so an image with a missing entry is left
  out; and it maps a basename to \<open>b\<close> exactly when some image part with that basename
  is stored and \<open>b\<close> is what the archive holds at the path of the last of them, so
  the images that remain keep their bytes.
\<close>

theorem missing_optional_resources:
  "(rels_cache file = None \<and> fst (zipf ext context) = Inr z \<and> \<not> closed z
      \<and> fst (File_rels_path file) \<notin> fst ` set (filelist z)
     \<longrightarrow> fst (File_rels ext context file) = Inr [])
   \<and> (numId2NumFmts_cache self = None \<and> fst (zipf ext self) = Inr z1 \<and> \<not> closed z1
      \<and> ''word/numbering.xml'' \<notin> fst ` set (filelist z1)
     \<longrightarrow> fst (numId2numFmts ext self) = Inr [])
   \<and> (files ext self2 = (Inr fs, self3) \<and> fst (zipf ext self2) = Inr z2 \<and> \<not> closed z2
     \<longrightarrow> (\<exists>images. fst (pull_image_files ext self2 d) = Inr images \<and>
           (\<forall>k. (k \<in> fst ` set images) =
              (\<exists>f \<in> set fs. Type f = ''image'' \<and> basename (Target f) = k
                  \<and> fst (File_path f) \<in> fst ` set (filelist z2))) \<and>
           (\<forall>k b. (map_of images k = Some b) =
              (stored_images z2 fs k \<noteq> [] \<and>
               ZipFile_read z2 (fst (File_path (last (stored_images z2 fs k)))) = Inr b))))"
proof -
  have third: "\<exists>images. fst (pull_image_files ext self2 d) = Inr images \<and>
           (\<forall>k. (k \<in> fst ` set images) =
              (\<exists>f \<in> set fs. Type f = ''image'' \<and> basename (Target f) = k
                  \<and> fst (File_path f) \<in> fst ` set (filelist z2))) \<and>
           (\<forall>k b. (map_of images k = Some b) =
              (stored_images z2 fs k \<noteq> [] \<and>
               ZipFile_read z2 (fst (File_path (last (stored_images z2 fs k)))) = Inr b))"
    if h: "files ext self2 = (Inr fs, self3)" "fst (zipf ext self2) = Inr z2" "\<not> closed z2"
  proof -
    from pull_image_files_keys [OF h, of d] obtain i1 where
      a: "fst (pull_image_files ext self2 d) = Inr i1"
      and k: "\<forall>k. (k \<in> fst ` set i1) =
              (\<exists>f \<in> set fs. Type f = ''image'' \<and> basename (Target f) = k
                  \<and> fst (File_path f) \<in> fst ` set (filelist z2))"
      by blast
    from pull_image_files_values [OF h, of d] obtain i2 where
      b: "fst (pull_image_files ext self2 d) = Inr i2"
      and v: "\<forall>k b. (map_of i2 k = Some b) =
              (stored_images z2 fs k \<noteq> [] \<and>
               ZipFile_read z2 (fst (File_path (last (stored_images z2 fs k)))) = Inr b)"
      by blast
    from a b have "i1 = i2" by simp
    with a k v show ?thesis by blast
  qed
  show ?thesis
    using File_rels_missing [of "file" ext "context" z] numId2numFmts_missing [of self ext z1]
      third
    by blast
qed

lemma example_zipf: "fst (zipf example_ext example_reader) = Inr example_archive"
  by (simp add: zipf_def example_ext_def example_reader_def DocxReader_init_def)

lemma example_open: "\<not> closed example_archive"
  by (simp add: example_archive_def)

lemma example_names:
  "fst ` set (filelist example_archive) =
     {''_rels/.rels'', ''word/document.xml'', ''word/styles.xml'', ''word/header1.xml'',
      ''word/header2.xml'', ''word/media/image1.png''}"
  by (simp add: example_archive_def)

lemma example_stored:
  "stored_images example_archive example_files ''image1.png''
     = [(part ''rId4'' ''image'' ''media/image1.png'' ''word/_rels'')
          \<lparr>path_cache := Some ''word/media/image1.png''\<rparr>]
   \<and> stored_images example_archive example_files ''image2.jpg'' = []"
  by code_simp

theorem missing_optional_resources_witness:
  "fst (File_rels example_ext example_reader document_part) = Inr []
   \<and> fst (numId2numFmts example_ext example_reader) = Inr []
   \<and> (\<exists>images. fst (pull_image_files example_ext example_reader None) = Inr images
        \<and> ''image1.png'' \<in> fst ` set images \<and> ''image2.jpg'' \<notin> fst ` set images
        \<and> map_of images ''image1.png'' = Some ''PNG1''
        \<and> map_of images ''image2.jpg'' = None)"
proof -
  have r1: "rels_cache document_part = None"
    by (simp add: document_part_def part_def)
  have r2: "fst (File_rels_path document_part) \<notin> fst ` set (filelist example_archive)"
    by (simp add: example_names)
       (simp add: document_part_def part_def File_rels_path_def File_path_def Let_def
         path_split_def dirname_def basename_def path_head_def path_tail_def rstrip_sep_def)
  have n1: "numId2NumFmts_cache example_reader = None"
    by (simp add: example_reader_def DocxReader_init_def)
  have n2: "''word/numbering.xml'' \<notin> fst ` set (filelist example_archive)"
    by (simp add: example_names)
  note inst = missing_optional_resources [of document_part example_ext example_reader
      example_archive example_reader example_archive example_reader example_files
      "example_reader\<lparr>zipf_cache := Some example_archive, files_cache := Some example_files\<rparr>"
      example_archive None]
  from inst r1 r2 example_zipf example_open
  have a: "fst (File_rels example_ext example_reader document_part) = Inr []" by blast
  from inst n1 n2 example_zipf example_open
  have b: "fst (numId2numFmts example_ext example_reader) = Inr []" by blast
  from inst example_files_eq example_zipf example_open
  obtain images where im: "fst (pull_image_files example_ext example_reader None) = Inr images"
    and keys: "\<And>k. (k \<in> fst ` set images) =
              (\<exists>f \<in> set example_files. Type f = ''image'' \<and> basename (Target f) = k
                  \<and> fst (File_path f) \<in> fst ` set (filelist example_archive))"
    and vals: "\<And>k b. (map_of images k = Some b) =
              (stored_images example_archive example_files k \<noteq> [] \<and>
               ZipFile_read example_archive
                 (fst (File_path (last (stored_images example_archive example_files k)))) = Inr b)"
    by blast
  have k1: "''image1.png'' \<in> fst ` set images"
    unfolding keys example_names
    by (simp add: example_files_def part_def File_path_def Let_def
         dirname_def basename_def path_head_def path_tail_def rstrip_sep_def)
  have k2: "''image2.jpg'' \<notin> fst ` set images"
    unfolding keys example_names
    by (simp add: example_files_def part_def File_path_def Let_def
         dirname_def basename_def path_head_def path_tail_def rstrip_sep_def)
  have rd: "ZipFile_read example_archive ''word/media/image1.png'' = Inr ''PNG1''"
    by (simp add: ZipFile_read_def example_archive_def)
  have v1: "map_of images ''image1.png'' = Some ''PNG1''"
    unfolding vals by (simp add: example_stored File_path_def part_def rd)
  have "\<And>b. map_of images ''image2.jpg'' \<noteq> Some b"
    unfolding vals by (simp add: example_stored)
  then have v2: "map_of images ''image2.jpg'' = None"
    by (cases "map_of images ''image2.jpg''") auto
  from a b im k1 k2 v1 v2 show ?thesis by blast
qed

subsection \<open>Images that share a basename\<close>

lemma single_entry:
  "distinct (map fst al) \<Longrightarrow> map_of al k = Some b \<Longrightarrow> length (filter (\<lambda>e. fst e = k) al) = 1"
proof (induction al)
  case Nil
  then show ?case by simp
next
  case (Cons a al)
  show ?case
  proof (cases "fst a = k")
    case True
    with Cons.prems have "k \<notin> fst ` set al" by simp
    then have "filter (\<lambda>e. fst e = k) al = []"
      by (force simp: filter_empty_conv)
    with True show ?thesis by simp
  next
    case False
    with Cons show ?thesis by (cases a) auto
  qed
qed

text \<open>
  Claim C10, as amended. The mapping of \<open>pull_image_files\<close> is keyed by the basename
  of the declared target. With the archive handle open, let \<open>present\<close> be the image
  parts with target basename \<open>k\<close> whose entry is in the archive, in ascending order of
  storage path. If there is one at all, the mapping has exactly one entry for \<open>k\<close>,
  and its bytes are those stored at the path of the last part of \<open>present\<close>, whose
  path is the greatest among them: the part that sorts last among those whose entry
  exists, not among all parts that share the basename.
\<close>

theorem pull_image_files_shared_basename:
  assumes "files ext self = (Inr fs, self1)" and "fst (zipf ext self) = Inr z" and "\<not> closed z"
    and "present = filter (\<lambda>f. basename (Target f) = k \<and> fst (File_path f) \<in> fst ` set (filelist z))
                     (sorted_by_path (filter (\<lambda>x. Type x = ''image'') fs))"
    and "present \<noteq> []"
  shows "\<exists>images b. fst (pull_image_files ext self d) = Inr images
      \<and> length (filter (\<lambda>e. fst e = k) images) = 1
      \<and> map_of images k = Some b
      \<and> ZipFile_read z (fst (File_path (last present))) = Inr b
      \<and> (\<forall>g \<in> set present. fst (File_path g) \<le> fst (File_path (last present)))"
proof -
  let ?m = "map_of (rev (filelist z))"
  let ?imgs = "sorted_by_path (filter (\<lambda>x. Type x = ''image'') fs)"
  let ?images = "fold (\<lambda>img acc. case ?m (fst (File_path img)) of
                 None \<Rightarrow> acc | Some b \<Rightarrow> AList.update (basename (Target img)) b acc) ?imgs []"
  let ?P = "\<lambda>f. basename (Target f) = k \<and> ?m (fst (File_path f)) \<noteq> None"
  have res: "fst (pull_image_files ext self d) = Inr ?images"
    by (rule pull_image_files_open [OF assms(1-3)])
  have pres: "present = filter ?P ?imgs"
    unfolding assms(4) by (simp add: entry_present)
  obtain x xs where xs: "filter ?P ?imgs = x # xs"
    using assms(5) pres by (cases "filter ?P ?imgs") auto
  have lastP: "last present \<in> set (filter ?P ?imgs)"
    using assms(5) pres by (metis last_in_set)
  then obtain b where b: "?m (fst (File_path (last present))) = Some b" by auto
  have "map_of ?images k = ?m (fst (File_path (last (x # xs))))"
    using xs map_of_collected [where m = ?m and key = "\<lambda>f. fst (File_path f)"
            and nm = "\<lambda>f. basename (Target f)" and imgs = ?imgs and acc = "[]" and k = k]
    by simp
  then have mk: "map_of ?images k = Some b"
    using b xs pres by simp
  have dist: "distinct (map fst ?images)"
    using distinct_collected [where m = ?m and key = "\<lambda>f. fst (File_path f)"
            and nm = "\<lambda>f. basename (Target f)" and imgs = ?imgs and acc = "[]"]
    by simp
  have one: "length (filter (\<lambda>e. fst e = k) ?images) = 1"
    using dist mk by (rule single_entry)
  have rd: "ZipFile_read z (fst (File_path (last present))) = Inr b"
    using b by (simp add: ZipFile_read_open [OF assms(3)])
  have srt: "sorted (map (\<lambda>f. fst (File_path f)) present)"
    unfolding assms(4) by (rule sorted_filter_keys) (rule sorted_by_path_sorted)
  have top: "\<forall>g \<in> set present. fst (File_path g) \<le> fst (File_path (last present))"
    using sorted_last_greatest [OF srt] by blast
  from res one mk rd top show ?thesis by blast
qed

text \<open>
  Claim C10 as stated fails when the entry of the part that sorts last is missing:
  \<open>suppress(KeyError)\<close> skips that part, and the bytes of the part that sorts first
  stay in the mapping.
\<close>

theorem pull_image_files_last_missing:
  "map (\<lambda>f. fst (File_path f))
       (case fst (files_of_type first_only_ext shared_reader (Some ''image'')) of
          Inr found \<Rightarrow> found | Inl e \<Rightarrow> [])
     = [''alt/media/logo.png'', ''word/media/logo.png'']
   \<and> ZipFile_read first_only_archive ''word/media/logo.png'' = Inl (KeyError ''word/media/logo.png'')
   \<and> ZipFile_read first_only_archive ''alt/media/logo.png'' = Inr ''ALT''
   \<and> fst (pull_image_files first_only_ext shared_reader None) = Inr [(''logo.png'', ''ALT'')]"
  by code_simp

lemma shared_files_eq:
  "files both_ext shared_reader =
     (Inr shared_files,
      shared_reader\<lparr>zipf_cache := Some both_archive, files_cache := Some shared_files\<rparr>)"
  by code_simp

lemma shared_sorted:
  "sorted_by_path (filter (\<lambda>x. Type x = ''image'') shared_files) =
     [(part ''rId1'' ''image'' ''media/logo.png'' ''alt/_rels'')\<lparr>path_cache := Some ''alt/media/logo.png''\<rparr>,
      (part ''rId1'' ''image'' ''media/logo.png'' ''word/_rels'')\<lparr>path_cache := Some ''word/media/logo.png''\<rparr>]"
  by code_simp

theorem pull_image_files_shared_basename_witness:
  "\<exists>images. fst (pull_image_files both_ext shared_reader None) = Inr images
      \<and> length (filter (\<lambda>e. fst e = ''logo.png'') images) = 1
      \<and> map_of images ''logo.png'' = Some ''WORD''"
proof -
  let ?a = "(part ''rId1'' ''image'' ''media/logo.png'' ''alt/_rels'')\<lparr>path_cache := Some ''alt/media/logo.png''\<rparr>"
  let ?w = "(part ''rId1'' ''image'' ''media/logo.png'' ''word/_rels'')\<lparr>path_cache := Some ''word/media/logo.png''\<rparr>"
  have z: "fst (zipf both_ext shared_reader) = Inr both_archive"
    by (simp add: zipf_def both_ext_def example_ext_def shared_reader_def DocxReader_init_def)
  have op: "\<not> closed both_archive" by (simp add: both_archive_def)
  have pr: "[?a, ?w] = filter (\<lambda>f. basename (Target f) = ''logo.png''
                \<and> fst (File_path f) \<in> fst ` set (filelist both_archive))
              (sorted_by_path (filter (\<lambda>x. Type x = ''image'') shared_files))"
    unfolding shared_sorted
    by (simp add: part_def File_path_def both_archive_def basename_def path_tail_def)
  have ne: "[?a, ?w] \<noteq> []" by simp
  have rd: "ZipFile_read both_archive (fst (File_path (last [?a, ?w]))) = Inr ''WORD''"
    by (simp add: part_def File_path_def both_archive_def ZipFile_read_def)
  from pull_image_files_shared_basename [OF shared_files_eq z op pr ne, of None] rd
  show ?thesis by auto
qed

subsection \<open>Caches\<close>

lemma File_path_fills: "File_path f = (p, f1) \<Longrightarrow> path_cache f1 = Some p"
  by (auto simp: File_path_def Let_def split: option.splits)

lemma File_rels_fills:
  assumes "File_rels ext c f = (Inr r, c1, f1)"
  shows "rels_cache f1 = Some r"
proof (cases "rels_cache f")
  case None
  obtain t c' f' where t: "rels_try ext c f = (t, c', f')"
    by (cases "rels_try ext c f")
  show ?thesis
  proof (cases t)
    case (Inl e)
    with assms None t show ?thesis
      by (cases "is_KeyError e") (auto simp: File_rels_def)
  next
    case (Inr r')
    with assms None t show ?thesis by (auto simp: File_rels_def)
  qed
next
  case (Some a)
  with assms show ?thesis by (simp add: File_rels_def)
qed

lemma File_rels_cached: "rels_cache f = Some r \<Longrightarrow> File_rels ext c f = (Inr r, c, f)"
  by (simp add: File_rels_def)

lemma File_root_element_cached:
  "root_element_cache f = Some x \<Longrightarrow> File_root_element ext c f = (Inr x, c, f)"
  by (simp add: File_root_element_def)

lemma File_root_element_fills:
  assumes "File_root_element ext c f = (Inr x, c1, f1)"
  shows "root_element_cache f1 = Some x"
proof (cases "root_element_cache f")
  case None
  obtain zr c' where z: "zipf ext c = (zr, c')" by (cases "zipf ext c")
  obtain p f' where p: "File_path f = (p, f')" by (cases "File_path f")
  show ?thesis
  proof (cases zr)
    case (Inl e)
    with assms None z show ?thesis by (simp add: File_root_element_def)
  next
    case (Inr z')
    show ?thesis
    proof (cases "ZipFile_read z' p")
      case (Inl e)
      with assms None z Inr p show ?thesis by (simp add: File_root_element_def)
    next
      case rd: (Inr b)
      show ?thesis
      proof (cases "fromstring ext b")
        case (Inl e)
        with assms None z Inr p rd show ?thesis by (simp add: File_root_element_def)
      next
        case fs: (Inr parsed)
        obtain raised root where m: "merge_elems ext f' parsed = (raised, root)"
          by (cases "merge_elems ext f' parsed")
        from assms None z Inr p rd fs m show ?thesis
          by (cases raised; cases "Type f' \<in> CONTENT_FILE_TYPES")
             (auto simp: File_root_element_def Let_def)
      qed
    qed
  qed
next
  case (Some a)
  with assms show ?thesis by (simp add: File_root_element_def)
qed

lemma numId2numFmts_cached:
  "numId2NumFmts_cache s = Some t \<Longrightarrow> numId2numFmts ext s = (Inr t, s)"
  by (simp add: numId2numFmts_def)

lemma numId2numFmts_fills:
  assumes "numId2numFmts ext s = (Inr t, s1)"
  shows "numId2NumFmts_cache s1 = Some t"
proof (cases "numId2NumFmts_cache s")
  case None
  obtain r s' where t: "numFmts_try ext s = (r, s')" by (cases "numFmts_try ext s")
  show ?thesis
  proof (cases r)
    case (Inl e)
    with assms None t show ?thesis
      by (cases "is_KeyError e") (auto simp: numId2numFmts_def)
  next
    case (Inr r')
    with assms None t show ?thesis by (auto simp: numId2numFmts_def)
  qed
next
  case (Some a)
  with assms show ?thesis by (simp add: numId2numFmts_def)
qed

lemma files_cached: "files_cache s = Some fs \<Longrightarrow> files ext s = (Inr fs, s)"
  by (simp add: files_def)

lemma files_fills: "files ext s = (Inr fs, s1) \<Longrightarrow> files_cache s1 = Some fs"
  using files_Inr_cases [of ext s fs s1] by auto

text \<open>
  Claim C6 as stated fails for \<open>content\<close>: an access stores nothing in the part, and
  after the caller has edited the cached tree (as the test \<open>test_save_changed\<close> does)
  the next access computes the content again and returns another value.
\<close>

theorem content_not_cached:
  "fst (File_content example_ext example_reader
          (document_part\<lparr>root_element_cache := Some (Element ''bullet'' [] [] [])\<rparr>))
     = Inr [[[[''bullet'']]]]
   \<and> snd (snd (File_content example_ext example_reader
          (document_part\<lparr>root_element_cache := Some (Element ''bullet'' [] [] [])\<rparr>)))
     = document_part\<lparr>root_element_cache := Some (Element ''bullet'' [] [] [])\<rparr>
   \<and> fst (File_content example_ext example_reader
          (document_part\<lparr>root_element_cache := Some (Element ''BULLET'' [] [] [])\<rparr>))
     = Inr [[[[''BULLET'']]]]"
  by (simp add: File_content_def get_text_call_def File_root_element_def example_ext_def)

subsection \<open>What \<open>save\<close> does on every package\<close>

lemma copy_loop_open:
  assumes "\<not> closed in_zip"
  shows "\<not> closed out \<Longrightarrow> fst ` set items \<subseteq> fst ` set (filelist in_zip) \<Longrightarrow>
    copy_loop in_zip out excl items =
      (Inr (), out\<lparr>filelist := filelist out @
          map (\<lambda>e. (fst e, the (map_of (rev (filelist in_zip)) (fst e))))
            (filter (\<lambda>e. fst e \<notin> excl) items)\<rparr>)"
proof (induction items arbitrary: out)
  case Nil
  then show ?case by simp
next
  case (Cons item items)
  have sub: "fst ` set items \<subseteq> fst ` set (filelist in_zip)" using Cons.prems(2) by auto
  show ?case
  proof (cases "fst item \<in> excl")
    case True
    then show ?thesis using Cons.IH [OF Cons.prems(1) sub] by simp
  next
    case False
    have "fst item \<in> fst ` set (filelist in_zip)" using Cons.prems(2) by auto
    then obtain b where b: "map_of (rev (filelist in_zip)) (fst item) = Some b"
      using entry_present [of in_zip "fst item"] by auto
    have rd: "ZipFile_read in_zip (fst item) = Inr b"
      by (simp add: ZipFile_read_open [OF assms] b)
    let ?out1 = "out\<lparr>filelist := filelist out @ [(fst item, b)]\<rparr>"
    have wr: "ZipFile_writestr out (fst item) b = (Inr (), ?out1)"
      using Cons.prems(1) by (simp add: ZipFile_writestr_def)
    have o1: "\<not> closed ?out1" using Cons.prems(1) by simp
    show ?thesis
      using False by (simp add: rd wr Cons.IH [OF o1 sub] b)
  qed
qed

lemma copy_but_open:
  assumes "\<not> closed in_zip"
  shows "copy_but in_zip ZipFile_create (Some excl) =
      (Inr (), ZipFile_close in_zip,
       \<lparr>filelist = map (\<lambda>e. (fst e, the (map_of (rev (filelist in_zip)) (fst e))))
            (filter (\<lambda>e. fst e \<notin> excl) (filelist in_zip)),
        closed = True\<rparr>)"
proof -
  have "\<not> closed ZipFile_create" by (simp add: ZipFile_create_def)
  from copy_loop_open [OF assms this, of "filelist in_zip" excl]
  show ?thesis
    by (simp add: copy_but_def ZipFile_infolist_def ZipFile_close_def ZipFile_create_def)
qed

lemma save_loop_closed:
  assumes "closed zout" and "zipf_cache self = Some zin" and "closed zin" and "cfs \<noteq> []"
  shows "\<exists>m fs'. save_loop ext self zout cfs = (Inl (ValueError m), self, zout, fs')"
proof -
  obtain cf rest where cfs: "cfs = cf # rest" using assms(4) by (cases cfs) auto
  obtain p cf1 where p: "File_path cf = (p, cf1)" by (cases "File_path cf")
  have z: "zipf ext self = (Inr zin, self)" using assms(2) by (rule zipf_cached)
  obtain p' cf2 where p': "File_path cf1 = (p', cf2)" by (cases "File_path cf1")
  show ?thesis
  proof (cases "root_element_cache cf1")
    case None
    have "ZipFile_read zin p' = Inl (ValueError ''Attempt to use ZIP archive that was already closed'')"
      using assms(3) by (simp add: ZipFile_read_def)
    then have "File_root_element ext self cf1 =
        (Inl (ValueError ''Attempt to use ZIP archive that was already closed''), self, cf2)"
      using None by (simp add: File_root_element_def z p')
    then show ?thesis by (simp add: cfs p)
  next
    case (Some x)
    have "File_root_element ext self cf1 = (Inr x, self, cf1)"
      using Some by (rule File_root_element_cached)
    moreover have "ZipFile_writestr zout p (tostring ext x) =
        (Inl (ValueError ''Attempt to write to ZIP archive that was already closed''), zout)"
      using assms(1) by (simp add: ZipFile_writestr_def)
    ultimately show ?thesis by (simp add: cfs p)
  qed
qed

text \<open>
  For every reader whose part list can be read and whose handle is open: the archive
  written at the destination holds exactly the entries of the source whose name is
  not the path of a content part, each with the bytes read for its name, and it is
  closed; the reader's handle is closed; and the call returns normally only when
  there is no content part. With a content part it raises \<open>ValueError\<close>, and no
  content part is written.
\<close>

lemma save_general:
  assumes "files ext self = (Inr fs, self1)" and "fst (zipf ext self) = Inr z" and "\<not> closed z"
  shows "\<exists>r s. save ext self filename =
           (r, s,
            Some \<lparr>filelist =
                    map (\<lambda>e. (fst e, the (map_of (rev (filelist z)) (fst e))))
                      (filter (\<lambda>e. fst e \<notin> (\<lambda>x. fst (File_path x)) `
                                  set (filter (\<lambda>x. Type x \<in> CONTENT_FILE_TYPES) fs))
                         (filelist z)),
                  closed = True\<rparr>)
         \<and> zipf_cache s = Some (ZipFile_close z)
         \<and> (if filter (\<lambda>x. Type x \<in> CONTENT_FILE_TYPES) fs = [] then r = Inr ()
             else \<exists>m. r = Inl (ValueError m))"
proof -
  let ?cf = "filter (\<lambda>x. Type x \<in> CONTENT_FILE_TYPES) fs"
  let ?keyed = "map File_path ?cf"
  let ?excl = "set (map fst ?keyed)"
  let ?out = "\<lparr>filelist = map (\<lambda>e. (fst e, the (map_of (rev (filelist z)) (fst e))))
                      (filter (\<lambda>e. fst e \<notin> ?excl) (filelist z)),
              closed = True\<rparr>"
  let ?self2 = "self1\<lparr>zipf_cache := Some z\<rparr>"
  let ?self3 = "?self2\<lparr>zipf_cache := Some (ZipFile_close z)\<rparr>"
  have "fst (zipf ext (self1\<lparr>files_cache := files_cache self1\<rparr>)) = Inr z"
    by (rule zipf_after_files [OF assms(1,2)])
  then have "fst (zipf ext self1) = Inr z" by simp
  then have z1: "zipf ext self1 = (Inr z, ?self2)" by (rule zipf_open)
  have cb: "copy_but z ZipFile_create (Some ?excl) = (Inr (), ZipFile_close z, ?out)"
    by (rule copy_but_open [OF assms(3)])
  have excl: "?excl = (\<lambda>x. fst (File_path x)) ` set ?cf" by (simp add: image_image)
  have outc: "ZipFile_close ?out = ?out" by (simp add: ZipFile_close_def)
  have sv: "save ext self filename =
      (case save_loop ext ?self3 ?out (map snd ?keyed) of
         (r', self4, zout2, cfs') \<Rightarrow>
           (r', self4\<lparr>files_cache :=
                  Some (replace_where (\<lambda>x. Type x \<in> CONTENT_FILE_TYPES) fs cfs')\<rparr>,
            Some (ZipFile_close zout2)))"
    by (simp add: save_def assms(1) z1 cb Let_def del: set_map map_map)
  show ?thesis
  proof (cases "?cf = []")
    case True
    have "save ext self filename =
        (Inr (), ?self3\<lparr>files_cache :=
                  Some (replace_where (\<lambda>x. Type x \<in> CONTENT_FILE_TYPES) fs [])\<rparr>, Some ?out)"
      unfolding sv using True by (simp add: ZipFile_close_def)
    then show ?thesis using True by (simp add: image_image)
  next
    case False
    then have ne: "map snd ?keyed \<noteq> []" by simp
    have c3: "zipf_cache ?self3 = Some (ZipFile_close z)" by simp
    have cz: "closed (ZipFile_close z)" by (simp add: ZipFile_close_def)
    have co: "closed ?out" by simp
    from save_loop_closed [OF co c3 cz ne, of ext]
    obtain m fs' where sl: "save_loop ext ?self3 ?out (map snd ?keyed)
        = (Inl (ValueError m), ?self3, ?out, fs')"
      by blast
    have "save ext self filename =
        (Inl (ValueError m), ?self3\<lparr>files_cache :=
                  Some (replace_where (\<lambda>x. Type x \<in> CONTENT_FILE_TYPES) fs fs')\<rparr>, Some ?out)"
      unfolding sv sl by (simp add: ZipFile_close_def)
    then show ?thesis using False by (simp add: image_image)
  qed
qed

subsection \<open>The same departures, for every input\<close>

text \<open>
  The message of the \<open>KeyError\<close> is a function of the requested type alone: the name
  of the archive does not enter it, for any reader.
\<close>

lemma file_of_type_missing:
  assumes "files ext self = (Inr fs, self1)" and "filter (\<lambda>x. Type x = t) fs = []"
  shows "fst (file_of_type ext self t) =
     Inl (KeyError (''There is no item of type '' @ [CHR 0x27] @ t @ [CHR 0x27]
            @ '' in the {self.docx_filename} archive''))"
  using assms(2)
  by (simp add: file_of_type_def files_of_type_eq [OF assms(1)] sorted_by_path_def)

text \<open>
  Whenever \<open>merge_elems\<close> raises on a content part, the tree returned and cached is the
  one it left behind, and one warning is emitted.
\<close>

lemma root_element_after_failed_merge:
  assumes "root_element_cache cf = None" and "fst (zipf ext c) = Inr z"
    and "ZipFile_read z (fst (File_path cf)) = Inr b" and "fromstring ext b = Inr parsed"
    and "Type cf \<in> CONTENT_FILE_TYPES"
    and "merge_elems ext (snd (File_path cf)) parsed = (Some ex, mutated)"
  shows "File_root_element ext c cf =
     (Inr mutated,
      warn (c\<lparr>zipf_cache := Some z\<rparr>)
        (merge_warning (c\<lparr>zipf_cache := Some z\<rparr>) (fst (File_path cf)) ex),
      (snd (File_path cf))\<lparr>root_element_cache := Some mutated\<rparr>)"
proof -
  obtain p cf1 where p: "File_path cf = (p, cf1)" by (cases "File_path cf")
  have z: "zipf ext c = (Inr z, c\<lparr>zipf_cache := Some z\<rparr>)"
    using assms(2) by (rule zipf_open)
  have ty: "Type cf1 \<in> CONTENT_FILE_TYPES"
    using assms(5) File_path_Type [of cf] p by simp
  show ?thesis
    using assms(1,3,4,6) p ty
    by (simp add: File_root_element_def z Let_def)
qed

subsection \<open>Caches over the lifetime of a reader\<close>

lemma cache_kept_refl [simp]: "cache_kept c c"
  by (simp add: cache_kept_def split: option.splits)

lemma cache_kept_None [simp]: "cache_kept None c"
  by (simp add: cache_kept_def)

lemma cache_kept_Some [simp]: "cache_kept (Some v) c = (c = Some v)"
  by (simp add: cache_kept_def)

lemma cache_kept_trans: "cache_kept a b \<Longrightarrow> cache_kept b c \<Longrightarrow> cache_kept a c"
  by (auto simp: cache_kept_def split: option.splits)

lemma part_kept_refl [simp]: "part_kept f f"
  by (simp add: part_kept_def)

lemma part_kept_trans: "part_kept a b \<Longrightarrow> part_kept b c \<Longrightarrow> part_kept a c"
  by (auto simp: part_kept_def intro: cache_kept_trans)

lemma parts_kept_refl [simp]: "list_all2 part_kept fs fs"
  by (simp add: list_all2_refl)

lemma parts_kept_trans:
  "list_all2 part_kept a b \<Longrightarrow> list_all2 part_kept b c \<Longrightarrow> list_all2 part_kept a c"
  by (rule list_all2_trans [of part_kept part_kept part_kept]) (auto intro: part_kept_trans)

lemma kept_refl [simp]: "kept s s"
  by (simp add: kept_def split: option.splits)

lemma kept_trans: "kept a b \<Longrightarrow> kept b c \<Longrightarrow> kept a c"
  by (auto simp: kept_def split: option.splits intro: cache_kept_trans parts_kept_trans)

text \<open>A state that differs in neither the table nor the part list.\<close>

lemma kept_same:
  "files_cache s' = files_cache s \<Longrightarrow> numId2NumFmts_cache s' = numId2NumFmts_cache s \<Longrightarrow> kept s s'"
  by (simp add: kept_def split: option.splits)

lemma kept_cong:
  "files_cache a' = files_cache a \<Longrightarrow> numId2NumFmts_cache a' = numId2NumFmts_cache a \<Longrightarrow>
   kept a' b = kept a b"
  by (simp add: kept_def)

lemma File_path_kept: "part_kept f (snd (File_path f))"
  by (simp add: File_path_def part_kept_def Let_def split: option.splits)

lemma File_rels_path_kept: "part_kept f (snd (File_rels_path f))"
proof (cases "rels_path_cache f")
  case None
  obtain p f1 where p: "File_path f = (p, f1)" by (cases "File_path f")
  with File_path_kept [of f] have "part_kept f f1" by simp
  with None p show ?thesis
    by (simp add: File_rels_path_def part_kept_def Let_def split: prod.splits)
next
  case (Some a)
  then show ?thesis by (simp add: File_rels_path_def)
qed

lemma zipf_same:
  "zipf ext s = (r, s1) \<Longrightarrow>
     files_cache s1 = files_cache s \<and> numId2NumFmts_cache s1 = numId2NumFmts_cache s"
  by (auto simp: zipf_def split: option.splits sum.splits)

lemma rels_try_kept:
  assumes "rels_try ext c f = (r, c1, f1)"
  shows "part_kept f f1 \<and> rels_cache f1 = rels_cache f
     \<and> files_cache c1 = files_cache c \<and> numId2NumFmts_cache c1 = numId2NumFmts_cache c"
proof -
  obtain zr c' where z: "zipf ext c = (zr, c')" by (cases "zipf ext c")
  note same = zipf_same [OF z]
  show ?thesis
  proof (cases zr)
    case (Inl e)
    with assms z same show ?thesis by (simp add: rels_try_def)
  next
    case (Inr za)
    obtain rp f' where rp: "File_rels_path f = (rp, f')" by (cases "File_rels_path f")
    with File_rels_path_kept [of f] have k: "part_kept f f'" by simp
    have rc: "rels_cache f' = rels_cache f"
      using rp by (auto simp: File_rels_path_def File_path_def Let_def split: option.splits prod.splits)
    from assms z Inr rp have "c1 = c' \<and> f1 = f'"
      by (auto simp: rels_try_def split: sum.splits)
    with k rc same show ?thesis by simp
  qed
qed

lemma File_rels_kept:
  assumes "File_rels ext c f = (r, c1, f1)"
  shows "part_kept f f1
     \<and> files_cache c1 = files_cache c \<and> numId2NumFmts_cache c1 = numId2NumFmts_cache c"
proof (cases "rels_cache f")
  case None
  obtain t c' f' where t: "rels_try ext c f = (t, c', f')" by (cases "rels_try ext c f")
  note k = rels_try_kept [OF t]
  have upd: "part_kept f (f'\<lparr>rels_cache := Some v\<rparr>)" for v
    using k None by (simp add: part_kept_def)
  show ?thesis
  proof (cases t)
    case (Inl e)
    with assms None t k upd show ?thesis
      by (cases "is_KeyError e") (auto simp: File_rels_def)
  next
    case (Inr r')
    with assms None t k upd show ?thesis by (auto simp: File_rels_def)
  qed
next
  case (Some a)
  with assms show ?thesis by (simp add: File_rels_def)
qed

lemma warn_same [simp]:
  "files_cache (warn s m) = files_cache s" "numId2NumFmts_cache (warn s m) = numId2NumFmts_cache s"
  by (simp_all add: warn_def)

lemma File_root_element_kept:
  assumes "File_root_element ext c f = (r, c1, f1)"
  shows "part_kept f f1
     \<and> files_cache c1 = files_cache c \<and> numId2NumFmts_cache c1 = numId2NumFmts_cache c"
proof (cases "root_element_cache f")
  case None
  obtain zr c' where z: "zipf ext c = (zr, c')" by (cases "zipf ext c")
  note same = zipf_same [OF z]
  obtain p f' where p: "File_path f = (p, f')" by (cases "File_path f")
  with File_path_kept [of f] have k: "part_kept f f'" by simp
  have upd: "part_kept f (f'\<lparr>root_element_cache := Some v\<rparr>)" for v
    using k None by (simp add: part_kept_def)
  show ?thesis
  proof (cases zr)
    case (Inl e)
    with assms None z same show ?thesis by (simp add: File_root_element_def)
  next
    case (Inr z')
    show ?thesis
    proof (cases "ZipFile_read z' p")
      case (Inl e)
      with assms None z Inr p k same show ?thesis by (simp add: File_root_element_def)
    next
      case rd: (Inr b)
      show ?thesis
      proof (cases "fromstring ext b")
        case (Inl e)
        with assms None z Inr p rd k same show ?thesis by (simp add: File_root_element_def)
      next
        case fs: (Inr parsed)
        obtain raised root where m: "merge_elems ext f' parsed = (raised, root)"
          by (cases "merge_elems ext f' parsed")
        from assms None z Inr p rd fs m upd same show ?thesis
          by (cases raised; cases "Type f' \<in> CONTENT_FILE_TYPES")
             (auto simp: File_root_element_def Let_def)
      qed
    qed
  qed
next
  case (Some a)
  with assms show ?thesis by (simp add: File_root_element_def)
qed

lemma get_text_call_kept:
  assumes "get_text_call ext c f root = (r, c1, f1)"
  shows "part_kept f f1
     \<and> files_cache c1 = files_cache c \<and> numId2NumFmts_cache c1 = numId2NumFmts_cache c"
proof (cases root)
  case None
  obtain t c' f' where t: "File_root_element ext c f = (t, c', f')"
    by (cases "File_root_element ext c f")
  note k = File_root_element_kept [OF t]
  from assms None t k show ?thesis
    by (cases t) (auto simp: get_text_call_def)
next
  case (Some a)
  with assms show ?thesis by (simp add: get_text_call_def)
qed

lemma files_same:
  assumes "files ext s = (r, s1)"
  shows "numId2NumFmts_cache s1 = numId2NumFmts_cache s \<and> (files_cache s \<noteq> None \<longrightarrow> s1 = s)"
proof (cases "files_cache s")
  case None
  obtain zr c' where z: "zipf ext s = (zr, c')" by (cases "zipf ext s")
  note same = zipf_same [OF z]
  from assms None z same show ?thesis
    by (auto simp: files_def split: sum.splits)
next
  case (Some a)
  with assms show ?thesis by (simp add: files_def)
qed

lemma files_kept: "files ext s = (r, s1) \<Longrightarrow> kept s s1"
  using files_same [of ext s r s1] by (cases "files_cache s") (auto simp: kept_def)

lemma numFmts_try_same:
  assumes "numFmts_try ext s = (r, s1)"
  shows "files_cache s1 = files_cache s \<and> numId2NumFmts_cache s1 = numId2NumFmts_cache s"
proof -
  obtain zr c' where z: "zipf ext s = (zr, c')" by (cases "zipf ext s")
  note same = zipf_same [OF z]
  from assms z same show ?thesis
    by (auto simp: numFmts_try_def split: sum.splits)
qed

lemma numId2numFmts_kept:
  assumes "numId2numFmts ext s = (r, s1)"
  shows "kept s s1"
proof (cases "numId2NumFmts_cache s")
  case None
  obtain t s' where t: "numFmts_try ext s = (t, s')" by (cases "numFmts_try ext s")
  note same = numFmts_try_same [OF t]
  have "files_cache s1 = files_cache s"
    using assms None t same
    by (cases t; cases "is_KeyError (projl t)") (auto simp: numId2numFmts_def)
  with None show ?thesis by (simp add: kept_def split: option.splits)
next
  case (Some a)
  with assms show ?thesis by (simp add: numId2numFmts_def)
qed

lemma parts_kept_replace:
  "list_all2 part_kept (filter P fs) ys \<Longrightarrow> list_all2 part_kept fs (replace_where P fs ys)"
proof (induction fs arbitrary: ys)
  case Nil
  then show ?case by simp
next
  case (Cons a fs)
  show ?case
  proof (cases "P a")
    case True
    with Cons.prems obtain y ys' where ys: "ys = y # ys'" and y: "part_kept a y"
      and rest: "list_all2 part_kept (filter P fs) ys'"
      by (auto simp: list_all2_Cons1)
    with True Cons.IH [OF rest] show ?thesis by simp
  next
    case False
    with Cons show ?thesis by simp
  qed
qed

lemma parts_kept_map: "(\<And>x. part_kept x (g x)) \<Longrightarrow> list_all2 part_kept xs (map g xs)"
  by (induction xs) auto

lemma kept_files_update:
  "files_cache s = Some fs \<Longrightarrow> list_all2 part_kept fs fs' \<Longrightarrow> kept s (s\<lparr>files_cache := Some fs'\<rparr>)"
  by (simp add: kept_def)

lemma files_of_type_kept:
  assumes "files_of_type ext s t = (r, s1)"
  shows "kept s s1"
proof -
  obtain fr s' where f: "files ext s = (fr, s')" by (cases "files ext s")
  note k = files_kept [OF f]
  show ?thesis
  proof (cases fr)
    case (Inl e)
    with assms f k show ?thesis by (simp add: files_of_type_def Let_def)
  next
    case (Inr fs)
    with f have fc: "files_cache s' = Some fs" by (simp add: files_fills)
    let ?P = "\<lambda>x. Type x \<in> (case t of None \<Rightarrow> CONTENT_FILE_TYPES | Some t \<Rightarrow> {t})"
    have "list_all2 part_kept fs
        (replace_where ?P fs (map (\<lambda>x. snd (File_path x)) (filter ?P fs)))"
      by (rule parts_kept_replace) (rule parts_kept_map, rule File_path_kept)
    from kept_files_update [OF fc this]
    have "kept s' s1"
      using assms f Inr by (simp add: files_of_type_def Let_def)
    with k show ?thesis by (rule kept_trans)
  qed
qed

lemma kept_warn: "kept s s1 \<Longrightarrow> kept s (warn s1 m)"
  by (auto simp: kept_def warn_def split: option.splits)

lemma file_of_type_kept:
  assumes "file_of_type ext s t = (r, s1)"
  shows "kept s s1"
proof -
  obtain fr s' where f: "files_of_type ext s (Some t) = (fr, s')"
    by (cases "files_of_type ext s (Some t)")
  note k = files_of_type_kept [OF f]
  show ?thesis
  proof (cases fr)
    case (Inl e)
    with assms f k show ?thesis by (simp add: file_of_type_def)
  next
    case (Inr found)
    with assms f have "s1 = s' \<or> (\<exists>m. s1 = warn s' m)"
      by (auto simp: file_of_type_def Let_def split: list.splits if_splits)
    with k show ?thesis by (auto intro: kept_warn)
  qed
qed

lemma close_kept: "kept s (snd (close s))"
  by (simp add: close_def kept_def split: option.splits)

lemma del_kept: "kept s (snd (del s))"
  by (simp add: del_def kept_def split: option.splits)

lemma zipf_kept: "kept s (snd (zipf ext s))"
  using zipf_same [of ext s "fst (zipf ext s)" "snd (zipf ext s)"] by (simp add: kept_same)

lemma kept_final:
  "files_cache sa = Some fs \<Longrightarrow> numId2NumFmts_cache sf = numId2NumFmts_cache sa \<Longrightarrow>
   files_cache sf = Some fs' \<Longrightarrow> list_all2 part_kept fs fs' \<Longrightarrow> kept sa sf"
  by (simp add: kept_def)

lemma pull_loop_same:
  "pull_loop ext s imgs acc = (r, s1) \<Longrightarrow>
     files_cache s1 = files_cache s \<and> numId2NumFmts_cache s1 = numId2NumFmts_cache s"
proof (induction imgs arbitrary: s acc)
  case Nil
  then show ?case by simp
next
  case (Cons img imgs)
  obtain zr s' where z: "zipf ext s = (zr, s')" by (cases "zipf ext s")
  note same = zipf_same [OF z]
  show ?case
  proof (cases zr)
    case (Inl e)
    show ?thesis
    proof (cases "is_KeyError e")
      case True
      with Cons.prems z Inl have "pull_loop ext s' imgs acc = (r, s1)" by simp
      from Cons.IH [OF this] same show ?thesis by simp
    next
      case False
      with Cons.prems z Inl same show ?thesis by simp
    qed
  next
    case (Inr za)
    show ?thesis
    proof (cases "ZipFile_read za (fst (File_path img))")
      case (Inl e)
      show ?thesis
      proof (cases "is_KeyError e")
        case True
        with Cons.prems z Inr Inl have "pull_loop ext s' imgs acc = (r, s1)" by simp
        from Cons.IH [OF this] same show ?thesis by simp
      next
        case False
        with Cons.prems z Inr Inl same show ?thesis by simp
      qed
    next
      case rd: (Inr b)
      with Cons.prems z Inr
      have "pull_loop ext s' imgs (AList.update (basename (Target img)) b acc) = (r, s1)" by simp
      from Cons.IH [OF this] same show ?thesis by simp
    qed
  qed
qed

lemma pull_image_files_kept:
  assumes "pull_image_files ext s d = (r, s1, w)"
  shows "kept s s1"
proof -
  obtain fr s' where f: "files_of_type ext s (Some ''image'') = (fr, s')"
    by (cases "files_of_type ext s (Some ''image'')")
  note k = files_of_type_kept [OF f]
  show ?thesis
  proof (cases fr)
    case (Inl e)
    with assms f k show ?thesis by (simp add: pull_image_files_def)
  next
    case (Inr found)
    obtain pr s'' where pl: "pull_loop ext s' found [] = (pr, s'')"
      by (cases "pull_loop ext s' found []")
    note same = pull_loop_same [OF pl]
    from assms f Inr pl have "s1 = s''"
      by (cases pr) (auto simp: pull_image_files_def)
    with same have "kept s' s1" by (simp add: kept_same)
    with k show ?thesis by (rule kept_trans)
  qed
qed

lemma save_loop_kept:
  "save_loop ext s zout cfs = (r, s1, z1, cfs') \<Longrightarrow>
     list_all2 part_kept cfs cfs'
     \<and> files_cache s1 = files_cache s \<and> numId2NumFmts_cache s1 = numId2NumFmts_cache s"
proof (induction cfs arbitrary: s zout r s1 z1 cfs')
  case Nil
  then show ?case by simp
next
  case (Cons cf rest)
  obtain p cf1 where p: "File_path cf = (p, cf1)" by (cases "File_path cf")
  with File_path_kept [of cf] have k1: "part_kept cf cf1" by simp
  obtain rr sa cf2 where re: "File_root_element ext s cf1 = (rr, sa, cf2)"
    by (cases "File_root_element ext s cf1")
  note k2 = File_root_element_kept [OF re]
  have k12: "part_kept cf cf2" using k1 k2 by (blast intro: part_kept_trans)
  show ?case
  proof (cases rr)
    case (Inl e)
    with Cons.prems p re k12 k2 show ?thesis by auto
  next
    case (Inr root)
    obtain wr zo where w: "ZipFile_writestr zout p (tostring ext root) = (wr, zo)"
      by (cases "ZipFile_writestr zout p (tostring ext root)")
    show ?thesis
    proof (cases wr)
      case (Inl e)
      with Cons.prems p re Inr w k12 k2 show ?thesis by auto
    next
      case wok: (Inr u)
      obtain r' s' z' rest' where sl: "save_loop ext sa zo rest = (r', s', z', rest')"
        by (cases "save_loop ext sa zo rest") auto
      note ih = Cons.IH [OF sl]
      from Cons.prems p re Inr w wok sl have "s1 = s' \<and> cfs' = cf2 # rest'" by auto
      with ih k12 k2 show ?thesis by simp
    qed
  qed
qed

lemma save_kept:
  assumes "save ext s filename = (r, s1, out)"
  shows "kept s s1"
proof -
  let ?P = "\<lambda>x. Type x \<in> CONTENT_FILE_TYPES"
  obtain fr sa where f: "files ext s = (fr, sa)" by (cases "files ext s")
  note k = files_kept [OF f]
  show ?thesis
  proof (cases fr)
    case (Inl e)
    with assms f k show ?thesis by (simp add: save_def)
  next
    case (Inr fs)
    with f have fc: "files_cache sa = Some fs" by (simp add: files_fills)
    obtain zr sb where z: "zipf ext sa = (zr, sb)" by (cases "zipf ext sa")
    note same = zipf_same [OF z]
    show ?thesis
    proof (cases zr)
      case (Inl e)
      with assms f Inr z have "s1 = sb" by (simp add: save_def Let_def)
      with same have "kept sa s1" by (simp add: kept_same)
      with k show ?thesis by (rule kept_trans)
    next
      case zok: (Inr in_zip)
      let ?keyed = "map File_path (filter ?P fs)"
      obtain cr in1 zout1 where cb:
        "copy_but in_zip ZipFile_create (Some (set (map fst ?keyed))) = (cr, in1, zout1)"
        by (cases "copy_but in_zip ZipFile_create (Some (set (map fst ?keyed)))") auto
      let ?s3 = "sb\<lparr>zipf_cache := Some in1\<rparr>"
      have base: "list_all2 part_kept (filter ?P fs) (map snd ?keyed)"
        using parts_kept_map [of "\<lambda>x. snd (File_path x)" "filter ?P fs"]
        by (simp add: File_path_kept o_def)
      show ?thesis
      proof (cases cr)
        case (Inl e)
        with assms f Inr z zok cb
        have s1: "s1 = ?s3\<lparr>files_cache := Some (replace_where ?P fs (map snd ?keyed))\<rparr>"
          by (simp add: save_def Let_def del: set_map map_map)
        have "kept sa s1"
          by (rule kept_final [OF fc _ _ parts_kept_replace [OF base]])
             (simp_all add: s1 same)
        with k show ?thesis by (rule kept_trans)
      next
        case cok: (Inr u)
        obtain r' s4 zout2 cfs' where sl:
          "save_loop ext ?s3 zout1 (map snd ?keyed) = (r', s4, zout2, cfs')"
          by (cases "save_loop ext ?s3 zout1 (map snd ?keyed)") auto
        note lk = save_loop_kept [OF sl]
        from assms f Inr z zok cb cok sl
        have s1: "s1 = s4\<lparr>files_cache := Some (replace_where ?P fs cfs')\<rparr>"
          by (simp add: save_def Let_def del: set_map map_map)
        have all: "list_all2 part_kept (filter ?P fs) cfs'"
          using base lk by (blast intro: parts_kept_trans)
        have "kept sa s1"
          by (rule kept_final [OF fc _ _ parts_kept_replace [OF all]])
             (simp_all add: s1 lk same)
        with k show ?thesis by (rule kept_trans)
      qed
    qed
  qed
qed

lemma on_part_kept:
  assumes "\<And>f c1 f1. m f = (c1, f1) \<Longrightarrow>
     part_kept f f1 \<and> files_cache c1 = files_cache s
       \<and> numId2NumFmts_cache c1 = numId2NumFmts_cache s"
  shows "kept s (on_part s i m)"
proof (cases "files_cache s")
  case None
  then show ?thesis by (simp add: on_part_def)
next
  case (Some fs)
  show ?thesis
  proof (cases "i < length fs")
    case True
    obtain c1 f1 where m: "m (fs ! i) = (c1, f1)" by (cases "m (fs ! i)")
    note a = assms [OF m]
    have "list_all2 part_kept (fs[i := fs ! i]) (fs[i := f1])"
      using a by (intro list_all2_update_cong) simp_all
    then have l: "list_all2 part_kept fs (fs[i := f1])" by simp
    have "on_part s i m = c1\<lparr>files_cache := Some (fs[i := f1])\<rparr>"
      using Some True m by (simp add: on_part_def)
    then show ?thesis
      using kept_final [OF Some _ _ l, of "c1\<lparr>files_cache := Some (fs[i := f1])\<rparr>"] a
      by simp
  next
    case False
    with Some show ?thesis by (simp add: on_part_def)
  qed
qed

lemma step_kept: "kept s (step ext operation s)"
proof (cases operation)
  case (Path i)
  show ?thesis unfolding Path step.simps
    by (rule on_part_kept) (use File_path_kept in auto)
next
  case (RelsPath i)
  show ?thesis unfolding RelsPath step.simps
    by (rule on_part_kept) (use File_rels_path_kept in auto)
next
  case (Rels i)
  show ?thesis unfolding Rels step.simps
    by (rule on_part_kept) (metis File_rels_kept prod.collapse)
next
  case (RootElement i)
  show ?thesis unfolding RootElement step.simps
    by (rule on_part_kept) (metis File_root_element_kept prod.collapse)
next
  case (Content i)
  show ?thesis unfolding Content step.simps File_content_def
    by (rule on_part_kept) (metis get_text_call_kept prod.collapse)
next
  case (GetContent i root)
  show ?thesis unfolding GetContent step.simps File_get_content_def
    by (rule on_part_kept) (metis get_text_call_kept prod.collapse)
next
  case Zipf
  then show ?thesis by (simp add: zipf_kept)
next
  case Files
  then show ?thesis using files_kept [of ext s] by (cases "files ext s") simp
next
  case NumId2numFmts
  then show ?thesis using numId2numFmts_kept [of ext s] by (cases "numId2numFmts ext s") simp
next
  case (FileOfType t)
  then show ?thesis using file_of_type_kept [of ext s t] by (cases "file_of_type ext s t") simp
next
  case (FilesOfType t)
  then show ?thesis using files_of_type_kept [of ext s t] by (cases "files_of_type ext s t") simp
next
  case ContentFiles
  then show ?thesis
    using files_of_type_kept [of ext s None]
    by (cases "files_of_type ext s None") (simp add: content_files_def)
next
  case (Save fn)
  then show ?thesis
    using save_kept [of ext s fn] by (cases "save ext s fn") auto
next
  case (PullImageFiles d)
  then show ?thesis
    using pull_image_files_kept [of ext s d] by (cases "pull_image_files ext s d") auto
next
  case Close
  then show ?thesis by (simp add: close_kept)
next
  case Del
  then show ?thesis by (simp add: del_kept)
qed

lemma run_kept: "kept s (run steps s)"
proof (induction steps arbitrary: s)
  case Nil
  then show ?case by simp
next
  case (Cons a steps)
  obtain ext operation where a: "a = (ext, operation)" by (cases a)
  have "kept s (step ext operation s)" by (rule step_kept)
  moreover have "kept (step ext operation s) (run steps (step ext operation s))" by (rule Cons.IH)
  ultimately show ?case unfolding a by (simp add: kept_trans)
qed

lemma part_after_run:
  assumes "files_cache s0 = Some fs0" and "i < length fs0"
  shows "\<exists>fs'. files_cache (run steps s0) = Some fs' \<and> i < length fs'
            \<and> part_kept (fs0 ! i) (fs' ! i)"
proof -
  have "kept s0 (run steps s0)" by (rule run_kept)
  with assms(1) obtain fs' where fs': "files_cache (run steps s0) = Some fs'"
    and l: "list_all2 part_kept fs0 fs'"
    by (auto simp: kept_def split: option.splits)
  from l assms(2) have "i < length fs'" "part_kept (fs0 ! i) (fs' ! i)"
    by (auto simp: list_all2_lengthD list_all2_nthD)
  with fs' show ?thesis by blast
qed

lemma on_part_at:
  assumes "files_cache s = Some fs" and "i < length fs" and "m (fs ! i) = (c1, f1)"
    and "files_cache c1 = files_cache s"
  shows "files_cache (on_part s i m) = Some (fs[i := f1])"
  using assms by (simp add: on_part_def)

text \<open>
  Claim C6, as amended. The numbering table and the part list of a reader, and the
  path, the rels map and the XML root of each of its parts, are computed at most
  once: when an access has returned a value, the same access after any run of
  operations of the module (lookups by type, image extraction, \<open>save\<close>, \<open>close\<close>,
  further accesses, in any number and order, each with the collaborators and the
  archive that are in place then; \<open>steps\<close>, \<open>ext'\<close> and \<open>c'\<close> are arbitrary) returns
  that value from the cache and changes nothing. There is no invalidation. For the
  part list this reads: the list returned later has the same parts in the same
  order, each with its attributes and with every cache it had filled, the parts
  having filled caches of their own in the meantime. \<open>content\<close> is not cached: on
  every part whose root is cached, an access returns what \<open>get_text\<close> makes of that
  root now, and stores nothing.
\<close>

theorem memoized_for_life:
  "(numId2numFmts ext s = (Inr t, s1)
      \<longrightarrow> numId2numFmts ext' (run steps s1) = (Inr t, run steps s1))
   \<and> (files ext s = (Inr fs, s1)
      \<longrightarrow> (\<exists>fs'. files ext' (run steps s1) = (Inr fs', run steps s1)
                 \<and> list_all2 part_kept fs fs'))
   \<and> (files_cache s = Some fs \<and> i < length fs \<and> File_path (fs ! i) = (p, f1)
      \<longrightarrow> (\<exists>fs'. files_cache (run steps (step ext (Path i) s)) = Some fs' \<and> i < length fs'
                 \<and> File_path (fs' ! i) = (p, fs' ! i)))
   \<and> (files_cache s = Some fs \<and> i < length fs \<and> File_rels ext s (fs ! i) = (Inr r, c1, f1)
      \<longrightarrow> (\<exists>fs'. files_cache (run steps (step ext (Rels i) s)) = Some fs' \<and> i < length fs'
                 \<and> File_rels ext' c' (fs' ! i) = (Inr r, c', fs' ! i)))
   \<and> (files_cache s = Some fs \<and> i < length fs
        \<and> File_root_element ext s (fs ! i) = (Inr x, c1, f1)
      \<longrightarrow> (\<exists>fs'. files_cache (run steps (step ext (RootElement i) s)) = Some fs'
                 \<and> i < length fs'
                 \<and> File_root_element ext' c' (fs' ! i) = (Inr x, c', fs' ! i)))
   \<and> (root_element_cache f = Some x \<longrightarrow> File_content ext c f = (get_text ext f x, c, f))"
proof (intro conjI impI)
  assume a: "numId2numFmts ext s = (Inr t, s1)"
  then have "numId2NumFmts_cache s1 = Some t" by (rule numId2numFmts_fills)
  moreover have "kept s1 (run steps s1)" by (rule run_kept)
  ultimately have "numId2NumFmts_cache (run steps s1) = Some t" by (simp add: kept_def)
  then show "numId2numFmts ext' (run steps s1) = (Inr t, run steps s1)"
    by (rule numId2numFmts_cached)
next
  assume a: "files ext s = (Inr fs, s1)"
  then have fc: "files_cache s1 = Some fs" by (rule files_fills)
  have "kept s1 (run steps s1)" by (rule run_kept)
  with fc obtain fs' where fs': "files_cache (run steps s1) = Some fs'"
    and l: "list_all2 part_kept fs fs'"
    by (auto simp: kept_def split: option.splits)
  from fs' have "files ext' (run steps s1) = (Inr fs', run steps s1)" by (rule files_cached)
  with l show "\<exists>fs'. files ext' (run steps s1) = (Inr fs', run steps s1)
                 \<and> list_all2 part_kept fs fs'" by blast
next
  assume a: "files_cache s = Some fs \<and> i < length fs \<and> File_path (fs ! i) = (p, f1)"
  then have fc: "files_cache s = Some fs" and i: "i < length fs"
    and fp: "File_path (fs ! i) = (p, f1)" by simp_all
  have filled: "path_cache f1 = Some p" using fp by (rule File_path_fills)
  have s0: "files_cache (step ext (Path i) s) = Some (fs[i := f1])"
    unfolding step.simps by (rule on_part_at [OF fc i, where ?c1.0 = s]) (simp_all add: fp)
  have i': "i < length (fs[i := f1])" using i by simp
  from part_after_run [OF s0 i', of steps] obtain fs' where
    fs': "files_cache (run steps (step ext (Path i) s)) = Some fs'" and il: "i < length fs'"
    and pk: "part_kept ((fs[i := f1]) ! i) (fs' ! i)" by blast
  from pk i filled have "path_cache (fs' ! i) = Some p" by (simp add: part_kept_def)
  then have "File_path (fs' ! i) = (p, fs' ! i)" by (rule File_path_cached)
  with fs' il show "\<exists>fs'. files_cache (run steps (step ext (Path i) s)) = Some fs'
      \<and> i < length fs' \<and> File_path (fs' ! i) = (p, fs' ! i)" by blast
next
  assume a: "files_cache s = Some fs \<and> i < length fs
      \<and> File_rels ext s (fs ! i) = (Inr r, c1, f1)"
  then have fc: "files_cache s = Some fs" and i: "i < length fs"
    and fr: "File_rels ext s (fs ! i) = (Inr r, c1, f1)" by simp_all
  have filled: "rels_cache f1 = Some r" using fr by (rule File_rels_fills)
  have same: "files_cache c1 = files_cache s" using File_rels_kept [OF fr] by simp
  have s0: "files_cache (step ext (Rels i) s) = Some (fs[i := f1])"
    unfolding step.simps by (rule on_part_at [OF fc i, where ?c1.0 = c1]) (simp_all add: fr same)
  have i': "i < length (fs[i := f1])" using i by simp
  from part_after_run [OF s0 i', of steps] obtain fs' where
    fs': "files_cache (run steps (step ext (Rels i) s)) = Some fs'" and il: "i < length fs'"
    and pk: "part_kept ((fs[i := f1]) ! i) (fs' ! i)" by blast
  from pk i filled have "rels_cache (fs' ! i) = Some r" by (simp add: part_kept_def)
  then have "File_rels ext' c' (fs' ! i) = (Inr r, c', fs' ! i)" by (rule File_rels_cached)
  with fs' il show "\<exists>fs'. files_cache (run steps (step ext (Rels i) s)) = Some fs'
      \<and> i < length fs' \<and> File_rels ext' c' (fs' ! i) = (Inr r, c', fs' ! i)" by blast
next
  assume a: "files_cache s = Some fs \<and> i < length fs
      \<and> File_root_element ext s (fs ! i) = (Inr x, c1, f1)"
  then have fc: "files_cache s = Some fs" and i: "i < length fs"
    and fr: "File_root_element ext s (fs ! i) = (Inr x, c1, f1)" by simp_all
  have filled: "root_element_cache f1 = Some x" using fr by (rule File_root_element_fills)
  have same: "files_cache c1 = files_cache s" using File_root_element_kept [OF fr] by simp
  have s0: "files_cache (step ext (RootElement i) s) = Some (fs[i := f1])"
    unfolding step.simps by (rule on_part_at [OF fc i, where ?c1.0 = c1]) (simp_all add: fr same)
  have i': "i < length (fs[i := f1])" using i by simp
  from part_after_run [OF s0 i', of steps] obtain fs' where
    fs': "files_cache (run steps (step ext (RootElement i) s)) = Some fs'"
    and il: "i < length fs'"
    and pk: "part_kept ((fs[i := f1]) ! i) (fs' ! i)" by blast
  from pk i filled have "root_element_cache (fs' ! i) = Some x" by (simp add: part_kept_def)
  then have "File_root_element ext' c' (fs' ! i) = (Inr x, c', fs' ! i)"
    by (rule File_root_element_cached)
  with fs' il show "\<exists>fs'. files_cache (run steps (step ext (RootElement i) s)) = Some fs'
      \<and> i < length fs' \<and> File_root_element ext' c' (fs' ! i) = (Inr x, c', fs' ! i)"
    by blast
next
  assume "root_element_cache f = Some x"
  then show "File_content ext c f = (get_text ext f x, c, f)"
    by (simp add: File_content_def get_text_call_def File_root_element_cached)
qed

theorem memoized_for_life_witness:
  "numId2numFmts both_ext (run example_steps (snd (numId2numFmts example_ext example_reader)))
     = (Inr [], run example_steps (snd (numId2numFmts example_ext example_reader)))
   \<and> (\<exists>fs'. files both_ext (run example_steps example_loaded)
              = (Inr fs', run example_steps example_loaded)
            \<and> list_all2 part_kept example_files fs')
   \<and> (\<exists>fs'. files_cache (run example_steps (step example_ext (Path 3) example_loaded)) = Some fs'
            \<and> File_path (fs' ! 3) = (''word/header1.xml'', fs' ! 3))
   \<and> (\<exists>fs'. files_cache (run example_steps (step example_ext (Rels 0) example_loaded)) = Some fs'
            \<and> File_rels both_ext shared_reader (fs' ! 0) = (Inr [], shared_reader, fs' ! 0))
   \<and> (\<exists>fs'. files_cache (run example_steps (step example_ext (RootElement 0) example_loaded))
              = Some fs'
            \<and> File_root_element both_ext shared_reader (fs' ! 0)
              = (Inr (Element ''<document/>'' [] [] []), shared_reader, fs' ! 0))
   \<and> File_content example_ext example_reader
         (document_part\<lparr>root_element_cache := Some (Element ''bullet'' [] [] [])\<rparr>)
       = (Inr [[[[''bullet'']]]], example_reader,
          document_part\<lparr>root_element_cache := Some (Element ''bullet'' [] [] [])\<rparr>)"
proof -
  have n1: "numId2numFmts example_ext example_reader
      = (Inr [], snd (numId2numFmts example_ext example_reader))"
    by code_simp
  have f1: "files example_ext example_reader = (Inr example_files, example_loaded)"
    by (simp add: example_loaded_def example_files_eq)
  have lc: "files_cache example_loaded = Some example_files"
    by (simp add: example_loaded_def example_files_eq)
  have h3: "files_cache example_loaded = Some example_files \<and> 3 < length example_files
      \<and> File_path (example_files ! 3) = (''word/header1.xml'', snd (File_path (example_files ! 3)))"
    using lc
    by (simp add: example_files_def part_def File_path_def Let_def dirname_def basename_def
        path_head_def path_tail_def rstrip_sep_def)
  have r0: "File_rels example_ext example_loaded (example_files ! 0)
      = (Inr [], fst (snd (File_rels example_ext example_loaded (example_files ! 0))),
         snd (snd (File_rels example_ext example_loaded (example_files ! 0))))"
    by code_simp
  have h4: "files_cache example_loaded = Some example_files \<and> 0 < length example_files
      \<and> File_rels example_ext example_loaded (example_files ! 0)
      = (Inr [], fst (snd (File_rels example_ext example_loaded (example_files ! 0))),
         snd (snd (File_rels example_ext example_loaded (example_files ! 0))))"
    using lc r0 by (simp add: example_files_def)
  have x0: "File_root_element example_ext example_loaded (example_files ! 0)
      = (Inr (Element ''<document/>'' [] [] []),
         fst (snd (File_root_element example_ext example_loaded (example_files ! 0))),
         snd (snd (File_root_element example_ext example_loaded (example_files ! 0))))"
    by code_simp
  have h5: "files_cache example_loaded = Some example_files \<and> 0 < length example_files
      \<and> File_root_element example_ext example_loaded (example_files ! 0)
      = (Inr (Element ''<document/>'' [] [] []),
         fst (snd (File_root_element example_ext example_loaded (example_files ! 0))),
         snd (snd (File_root_element example_ext example_loaded (example_files ! 0))))"
    using lc x0 by (simp add: example_files_def)
  have h6: "root_element_cache (document_part\<lparr>root_element_cache := Some (Element ''bullet'' [] [] [])\<rparr>)
      = Some (Element ''bullet'' [] [] [])" by simp
  note m = memoized_for_life [where ext = example_ext and ext' = both_ext
      and steps = example_steps and c' = shared_reader]
  have a: "numId2numFmts both_ext (run example_steps (snd (numId2numFmts example_ext example_reader)))
     = (Inr [], run example_steps (snd (numId2numFmts example_ext example_reader)))"
    using m [THEN conjunct1, rule_format, OF n1] .
  have b: "\<exists>fs'. files both_ext (run example_steps example_loaded)
              = (Inr fs', run example_steps example_loaded)
            \<and> list_all2 part_kept example_files fs'"
    using m [THEN conjunct2, THEN conjunct1, rule_format, OF f1] .
  have c: "\<exists>fs'. files_cache (run example_steps (step example_ext (Path 3) example_loaded)) = Some fs'
            \<and> File_path (fs' ! 3) = (''word/header1.xml'', fs' ! 3)"
    using m [THEN conjunct2, THEN conjunct2, THEN conjunct1, rule_format, OF h3] by blast
  have d: "\<exists>fs'. files_cache (run example_steps (step example_ext (Rels 0) example_loaded)) = Some fs'
            \<and> File_rels both_ext shared_reader (fs' ! 0) = (Inr [], shared_reader, fs' ! 0)"
    using m [THEN conjunct2, THEN conjunct2, THEN conjunct2, THEN conjunct1, rule_format, OF h4]
    by blast
  have e: "\<exists>fs'. files_cache (run example_steps (step example_ext (RootElement 0) example_loaded))
              = Some fs'
            \<and> File_root_element both_ext shared_reader (fs' ! 0)
              = (Inr (Element ''<document/>'' [] [] []), shared_reader, fs' ! 0)"
    using m [THEN conjunct2, THEN conjunct2, THEN conjunct2, THEN conjunct2, THEN conjunct1,
        rule_format, OF h5]
    by blast
  have g: "File_content example_ext example_reader
         (document_part\<lparr>root_element_cache := Some (Element ''bullet'' [] [] [])\<rparr>)
       = (Inr [[[[''bullet'']]]], example_reader,
          document_part\<lparr>root_element_cache := Some (Element ''bullet'' [] [] [])\<rparr>)"
    using m [THEN conjunct2, THEN conjunct2, THEN conjunct2, THEN conjunct2, THEN conjunct2,
        rule_format, OF h6, of example_reader]
    by (simp add: example_ext_def)
  from a b c d e g show ?thesis by (intro conjI)
qed

end
